theory Spec2Isabelle
  imports Complex_Main "HOL-Library.Word"
begin

unbundle bit_operations_syntax

section \<open>Numbers and arrays\<close>

text \<open>
  The scripts compute on NumPy float32 arrays. A float is modelled as a rational or one
  of the three IEEE special values, so that a division by zero yields what NumPy yields
  (an infinity or NaN and a warning, never an exception). The operations \<open>fadd\<close>,
  \<open>fmul\<close> and \<open>fdiv\<close> give the exact result; \<open>float32\<close> rounds it to the nearest
  binary32 value, a tie to the even significand, and \<open>add32\<close>, \<open>sub32\<close>, \<open>mul32\<close> and
  \<open>div32\<close> are the float32 operations. The sign of zero is not modelled: every zero
  divisor that occurs below is a difference \<open>w_max - w_min\<close>, which is \<open>+0.0\<close>.
  Scalars follow the promotion rules of NumPy 2: a float32 scalar combined with a Python
  number stays float32.
\<close>

datatype npfloat = Fin rat | PosInf | NegInf | NaN

datatype py_error = ValueError | KeyError | ZeroDivisionError | TypeError | FileNotFoundError

fun fneg :: "npfloat \<Rightarrow> npfloat" where
  "fneg (Fin a) = Fin (- a)"
| "fneg PosInf = NegInf"
| "fneg NegInf = PosInf"
| "fneg NaN = NaN"

fun fadd :: "npfloat \<Rightarrow> npfloat \<Rightarrow> npfloat" where
  "fadd (Fin a) (Fin b) = Fin (a + b)"
| "fadd NaN _ = NaN"
| "fadd _ NaN = NaN"
| "fadd PosInf NegInf = NaN"
| "fadd NegInf PosInf = NaN"
| "fadd PosInf _ = PosInf"
| "fadd NegInf _ = NegInf"
| "fadd _ PosInf = PosInf"
| "fadd _ NegInf = NegInf"

definition fsub :: "npfloat \<Rightarrow> npfloat \<Rightarrow> npfloat" where
  "fsub x y = fadd x (fneg y)"

definition signed_inf :: "bool \<Rightarrow> npfloat" where
  "signed_inf positive = (if positive then PosInf else NegInf)"

fun fmul :: "npfloat \<Rightarrow> npfloat \<Rightarrow> npfloat" where
  "fmul (Fin a) (Fin b) = Fin (a * b)"
| "fmul NaN _ = NaN"
| "fmul _ NaN = NaN"
| "fmul (Fin a) PosInf = (if a = 0 then NaN else signed_inf (0 < a))"
| "fmul (Fin a) NegInf = (if a = 0 then NaN else signed_inf (a < 0))"
| "fmul PosInf (Fin b) = (if b = 0 then NaN else signed_inf (0 < b))"
| "fmul NegInf (Fin b) = (if b = 0 then NaN else signed_inf (b < 0))"
| "fmul PosInf PosInf = PosInf"
| "fmul NegInf NegInf = PosInf"
| "fmul PosInf NegInf = NegInf"
| "fmul NegInf PosInf = NegInf"

fun fdiv :: "npfloat \<Rightarrow> npfloat \<Rightarrow> npfloat" where
  "fdiv (Fin a) (Fin b) =
     (if b = 0 then (if a = 0 then NaN else signed_inf (0 < a)) else Fin (a / b))"
| "fdiv NaN _ = NaN"
| "fdiv _ NaN = NaN"
| "fdiv (Fin a) PosInf = Fin 0"
| "fdiv (Fin a) NegInf = Fin 0"
| "fdiv PosInf (Fin b) = signed_inf (0 \<le> b)"
| "fdiv NegInf (Fin b) = signed_inf (b < 0)"
| "fdiv PosInf _ = NaN"
| "fdiv NegInf _ = NaN"

text \<open>\<open>np.round\<close> rounds to the nearest integer and a tie to the even neighbour.\<close>

definition rint :: "rat \<Rightarrow> int" where
  "rint x =
     (let f = \<lfloor>x\<rfloor>; d = x - of_int f
      in if d < 1 / 2 then f else if 1 / 2 < d then f + 1
         else if even f then f else f + 1)"

fun np_round :: "npfloat \<Rightarrow> npfloat" where
  "np_round (Fin a) = Fin (of_int (rint a))"
| "np_round x = x"

text \<open>
  Rounding to binary32: 24 significant bits, the least exponent -126 (below it the
  spacing stays \<open>2 ^ -149\<close>), and a result of magnitude \<open>2 ^ 128\<close> or more is an
  infinity. \<open>bit_length n\<close> is the number of binary digits of \<open>n\<close> and \<open>ilog2 x\<close> the
  exponent \<open>e\<close> with \<open>2 ^ e \<le> x < 2 ^ (e + 1)\<close>, for positive \<open>x\<close>.
\<close>

function bit_length :: "int \<Rightarrow> int" where
  "bit_length n = (if n \<le> 0 then 0 else 1 + bit_length (n div 2))"
  by pat_completeness auto
termination
  by (relation "measure nat") auto

declare bit_length.simps [simp del]

definition ilog2 :: "rat \<Rightarrow> int" where
  "ilog2 x =
     (if 1 \<le> x then bit_length \<lfloor>x\<rfloor> - 1
      else - bit_length (\<lceil>1 / x\<rceil> - 1))"

definition pow2 :: "int \<Rightarrow> rat" where
  "pow2 e = (if 0 \<le> e then 2 ^ nat e else 1 / 2 ^ nat (- e))"

definition float32 :: "rat \<Rightarrow> npfloat" where
  "float32 x =
     (if x = 0 then Fin 0
      else
        let e = max (ilog2 \<bar>x\<bar>) (- 126);
            q = pow2 (e - 23);
            y = of_int (rint (x / q)) * q
        in if pow2 128 \<le> \<bar>y\<bar> then signed_inf (0 < x) else Fin y)"

fun round32 :: "npfloat \<Rightarrow> npfloat" where
  "round32 (Fin a) = float32 a"
| "round32 x = x"

definition add32 :: "npfloat \<Rightarrow> npfloat \<Rightarrow> npfloat" where
  "add32 x y = round32 (fadd x y)"

definition sub32 :: "npfloat \<Rightarrow> npfloat \<Rightarrow> npfloat" where
  "sub32 x y = round32 (fsub x y)"

definition mul32 :: "npfloat \<Rightarrow> npfloat \<Rightarrow> npfloat" where
  "mul32 x y = round32 (fmul x y)"

definition div32 :: "npfloat \<Rightarrow> npfloat \<Rightarrow> npfloat" where
  "div32 x y = round32 (fdiv x y)"

text \<open>
  \<open>.astype(np.int8)\<close> and \<open>.astype(np.uint8)\<close> are C casts: the fraction is dropped
  and, on the usual platforms, an integer outside the target range that fits 32 bits
  keeps its low eight bits (200 becomes -56). NaN is cast to 0 there; the cast of an
  infinity differs between platforms and never occurs below on finite weights.
\<close>

definition trunc :: "rat \<Rightarrow> int" where
  "trunc x = (if 0 \<le> x then \<lfloor>x\<rfloor> else \<lceil>x\<rceil>)"

fun astype_int8 :: "npfloat \<Rightarrow> 8 word" where
  "astype_int8 (Fin a) = word_of_int (trunc a)"
| "astype_int8 _ = 0"

fun astype_uint8 :: "npfloat \<Rightarrow> 8 word" where
  "astype_uint8 (Fin a) = word_of_int (trunc a)"
| "astype_uint8 _ = 0"

text \<open>An int8 code read back as a number (\<open>weights.astype(np.float32)\<close>).\<close>

definition int8_to_float :: "8 word \<Rightarrow> npfloat" where
  "int8_to_float c = Fin (of_int (sint c))"

text \<open>An n-dimensional array: its shape and its elements in row-major order.\<close>

record 'a ndarray =
  shape :: "nat list"
  flat :: "'a list"

definition nd_size :: "'a ndarray \<Rightarrow> nat" where
  "nd_size a = length (flat a)"

definition nd_map :: "('a \<Rightarrow> 'b) \<Rightarrow> 'a ndarray \<Rightarrow> 'b ndarray" where
  "nd_map f a = \<lparr>shape = shape a, flat = map f (flat a)\<rparr>"

section \<open>Int8 quantization (\<open>quantize_int8\<close>) and its decoding\<close>

record q8 =
  q8_weights :: "8 word ndarray"
  q8_scale :: npfloat
  q8_zero_point :: npfloat
  q8_shape :: "nat list"

text \<open>\<open>weights.min()\<close> raises ValueError on an array without elements.\<close>

definition quantize_int8 :: "rat ndarray \<Rightarrow> py_error + q8" where
  "quantize_int8 weights =
     (if flat weights = [] then Inl ValueError
      else
        let w_min = Min (set (flat weights));
            w_max = Max (set (flat weights));
            scale = div32 (sub32 (Fin w_max) (Fin w_min)) (Fin 254);
            zero_point = sub32 (Fin (- 127)) (div32 (Fin w_min) scale);
            quantized_weights =
              nd_map (\<lambda>w. astype_int8 (np_round (add32 (div32 (Fin w) scale) zero_point))) weights
        in Inr \<lparr>q8_weights = quantized_weights, q8_scale = scale,
                 q8_zero_point = zero_point, q8_shape = shape weights\<rparr>)"

text \<open>
  The int8 branch of \<open>load_mixed_precision_model\<close>:
  \<open>(weights.astype(np.float32) - zero_point) * scale\<close>.
\<close>

definition dequantize_int8 :: "8 word ndarray \<Rightarrow> npfloat \<Rightarrow> npfloat \<Rightarrow> npfloat ndarray" where
  "dequantize_int8 weights scale zero_point =
     nd_map (\<lambda>c. mul32 (sub32 (int8_to_float c) zero_point) scale) weights"


text \<open>Encoding followed by decoding, as the claims about round trips compose them.\<close>

definition roundtrip_int8 :: "rat ndarray \<Rightarrow> py_error + npfloat ndarray" where
  "roundtrip_int8 weights =
     (case quantize_int8 weights of
        Inl e \<Rightarrow> Inl e
      | Inr q \<Rightarrow> Inr (dequantize_int8 (q8_weights q) (q8_scale q) (q8_zero_point q)))"

section \<open>Int4 quantization (\<open>quantize_int4\<close>)\<close>

record q4 =
  q4_packed_weights :: "8 word list"
  q4_scale :: npfloat
  q4_zero_point :: npfloat
  q4_shape :: "nat list"
  q4_original_size :: nat

text \<open>\<open>np.clip(quantized, 0, 15)\<close> on an unsigned byte.\<close>

definition np_clip :: "8 word \<Rightarrow> 8 word \<Rightarrow> 8 word \<Rightarrow> 8 word" where
  "np_clip lo hi q = (if q < lo then lo else if hi < q then hi else q)"

text \<open>
  The packing loop runs \<open>i\<close> over \<open>range(0, size, 2)\<close> and writes \<open>packed[i // 2]\<close>;
  here \<open>j\<close> is \<open>i // 2\<close>. A missing odd neighbour is replaced by 0.
\<close>

definition pack_int4 :: "8 word list \<Rightarrow> 8 word list" where
  "pack_int4 quantized =
     map (\<lambda>j. let i = 2 * j;
                  low = quantized ! i;
                  high = (if i + 1 < length quantized then quantized ! (i + 1) else 0)
              in push_bit 4 high OR low)
         [0 ..< (length quantized + 1) div 2]"

definition int4_codes :: "npfloat \<Rightarrow> npfloat \<Rightarrow> rat list \<Rightarrow> 8 word list" where
  "int4_codes scale zero_point ws =
     map (\<lambda>w. np_clip 0 15
                 (astype_uint8 (np_round (div32 (sub32 (Fin w) zero_point) scale)))) ws"

definition quantize_int4 :: "rat ndarray \<Rightarrow> py_error + q4" where
  "quantize_int4 weights =
     (if flat weights = [] then Inl ValueError
      else
        let w_min = Min (set (flat weights));
            w_max = Max (set (flat weights));
            scale = div32 (sub32 (Fin w_max) (Fin w_min)) (Fin 15);
            zero_point = Fin w_min;
            quantized = int4_codes scale zero_point (flat weights);
            packed = pack_int4 quantized
        in Inr \<lparr>q4_packed_weights = packed, q4_scale = scale, q4_zero_point = zero_point,
                 q4_shape = shape weights, q4_original_size = length quantized\<rparr>)"

section \<open>Mixed precision by layer name (\<open>quantize_mixed_precision\<close>)\<close>

text \<open>Python's \<open>s in t\<close> on strings: \<open>s\<close> occurs in \<open>t\<close> as a contiguous piece.\<close>

fun str_in :: "string \<Rightarrow> string \<Rightarrow> bool" where
  "str_in s [] = (s = [])"
| "str_in s (c # cs) = (take (length s) (c # cs) = s \<or> str_in s cs)"

definition critical_layers :: "string list" where
  "critical_layers =
     [''encoder.conv1'', ''encoder.conv2'', ''decoder.token_embedding'', ''decoder.ln'']"

definition is_critical :: "string \<Rightarrow> bool" where
  "is_critical layer_name = list_ex (\<lambda>critical. str_in critical layer_name) critical_layers"

datatype quantized = QInt8 q8 | QInt4 q4

definition quantize_mixed_precision :: "rat ndarray \<Rightarrow> string \<Rightarrow> py_error + quantized \<times> nat" where
  "quantize_mixed_precision weights layer_name =
     (if is_critical layer_name
      then (case quantize_int8 weights of Inl e \<Rightarrow> Inl e | Inr q \<Rightarrow> Inr (QInt8 q, 8))
      else (case quantize_int4 weights of Inl e \<Rightarrow> Inl e | Inr q \<Rightarrow> Inr (QInt4 q, 4)))"

section \<open>Block-wise quantization (\<open>quantize_block_wise\<close>)\<close>

text \<open>
  In the loop \<open>scale\<close> is the Python float \<open>1.0\<close> on the guarded path and a float32
  scalar otherwise. \<open>np.array(scales)\<close> is a float64 array as soon as the list holds a
  Python float and a float32 array otherwise; widening changes no value.
\<close>

datatype scalar = PyFloat npfloat | Float32 npfloat

fun scalar_value :: "scalar \<Rightarrow> npfloat" where
  "scalar_value (PyFloat x) = x"
| "scalar_value (Float32 x) = x"

fun is_py_float :: "scalar \<Rightarrow> bool" where
  "is_py_float (PyFloat x) = True"
| "is_py_float (Float32 x) = False"

record float_array =
  fa_itemsize :: nat
  fa_values :: "npfloat list"

definition np_array :: "scalar list \<Rightarrow> float_array" where
  "np_array xs =
     \<lparr>fa_itemsize = (if xs = [] \<or> list_ex is_py_float xs then 8 else 4),
      fa_values = map scalar_value xs\<rparr>"

definition fa_nbytes :: "float_array \<Rightarrow> nat" where
  "fa_nbytes a = fa_itemsize a * length (fa_values a)"

record qblocks =
  qb_blocks :: "8 word list list"
  qb_scales :: float_array
  qb_zero_points :: float_array
  qb_shape :: "nat list"
  qb_block_size :: nat

text \<open>
  The function returns the pair \<open>(quantize_int8(weights), 8)\<close> for a small array and
  a dictionary of blocks otherwise.
\<close>

datatype block_result = WholeTensor q8 nat | Blocks qblocks

text \<open>The body of the loop over blocks, for one block.\<close>

definition quantize_block :: "rat list \<Rightarrow> py_error + 8 word list \<times> scalar \<times> scalar" where
  "quantize_block block =
     (if block = [] then Inl ValueError
      else
        let w_min = Min (set block);
            w_max = Max (set block);
            scale = (if w_max = w_min then PyFloat (Fin 1)
                     else Float32 (div32 (sub32 (Fin w_max) (Fin w_min)) (Fin 254)));
            zero_point = (if w_max = w_min then Float32 (Fin w_min)
                          else Float32 (sub32 (Fin (- 127))
                                          (div32 (Fin w_min) (scalar_value scale))));
            quantized_block =
              map (\<lambda>w. astype_int8
                         (np_round (add32 (div32 (Fin w) (scalar_value scale))
                                          (scalar_value zero_point)))) block
        in Inr (quantized_block, scale, zero_point))"

text \<open>\<open>flat_weights[start_idx:end_idx]\<close> of the \<open>i\<close>-th round of the loop.\<close>

definition block_slice :: "rat list \<Rightarrow> nat \<Rightarrow> nat \<Rightarrow> rat list" where
  "block_slice flat_weights block_size i =
     (let start_idx = i * block_size;
          end_idx = min ((i + 1) * block_size) (length flat_weights)
      in take (end_idx - start_idx) (drop start_idx flat_weights))"

text \<open>The loop: the first exception ends it.\<close>

fun block_loop ::
  "rat list \<Rightarrow> nat \<Rightarrow> nat list \<Rightarrow> py_error + (8 word list \<times> scalar \<times> scalar) list" where
  "block_loop flat_weights block_size [] = Inr []"
| "block_loop flat_weights block_size (i # is) =
     (case quantize_block (block_slice flat_weights block_size i) of
        Inl e \<Rightarrow> Inl e
      | Inr b \<Rightarrow>
          (case block_loop flat_weights block_size is of
             Inl e \<Rightarrow> Inl e
           | Inr bs \<Rightarrow> Inr (b # bs)))"

text \<open>\<open>block_size\<close> is a non-negative Python int; \<open>// 0\<close> raises ZeroDivisionError.\<close>

definition quantize_block_wise :: "rat ndarray \<Rightarrow> nat \<Rightarrow> py_error + block_result" where
  "quantize_block_wise weights block_size =
     (if nd_size weights < block_size
      then (case quantize_int8 weights of Inl e \<Rightarrow> Inl e | Inr q \<Rightarrow> Inr (WholeTensor q 8))
      else if block_size = 0 then Inl ZeroDivisionError
      else
        let flat_weights = flat weights;
            num_blocks = (length flat_weights + block_size - 1) div block_size
        in (case block_loop flat_weights block_size [0 ..< num_blocks] of
              Inl e \<Rightarrow> Inl e
            | Inr bs \<Rightarrow>
                Inr (Blocks \<lparr>qb_blocks = map fst bs,
                             qb_scales = np_array (map (fst \<circ> snd) bs),
                             qb_zero_points = np_array (map (snd \<circ> snd) bs),
                             qb_shape = shape weights,
                             qb_block_size = block_size\<rparr>)))"


section \<open>Tensors of a model\<close>

datatype torch_dtype = torch_float32 | torch_float16 | torch_float64 | torch_int64

fun element_size :: "torch_dtype \<Rightarrow> nat" where
  "element_size torch_float32 = 4"
| "element_size torch_float16 = 2"
| "element_size torch_float64 = 8"
| "element_size torch_int64 = 8"

text \<open>One item of \<open>model.state_dict()\<close>: the name, the element type and the values.\<close>

record param =
  p_name :: string
  p_dtype :: torch_dtype
  p_array :: "rat ndarray"

definition numel :: "param \<Rightarrow> nat" where
  "numel p = nd_size (p_array p)"

definition nbytes :: "param \<Rightarrow> nat" where
  "nbytes p = numel p * element_size (p_dtype p)"

section \<open>Size accounting of \<open>advanced_quantization\<close>\<close>

text \<open>The four values of the argument \<open>method\<close> that \<open>compare_quantization_methods\<close> passes.\<close>

datatype quant_method = method_int8 | method_int4 | method_mixed | method_block

datatype adv_data = AdvInt8 q8 | AdvInt4 q4 | AdvBlocks qblocks | AdvOriginal "rat ndarray"

text \<open>
  One round of the loop: the stored data, \<open>original_size\<close> and \<open>quantized_size\<close>.
  Under \<open>block\<close> the result of \<open>quantize_block_wise\<close> is subscripted with
  \<open>'blocks'\<close>; on the pair returned for a small array that raises TypeError.
\<close>

definition advanced_tensor :: "quant_method \<Rightarrow> param \<Rightarrow> py_error + adv_data \<times> nat \<times> nat" where
  "advanced_tensor m p =
     (if p_dtype p = torch_float32 \<and> 2 \<le> length (shape (p_array p)) then
        let weights = p_array p; original_size = nbytes p in
        (case m of
           method_int4 \<Rightarrow>
             (case quantize_int4 weights of
                Inl e \<Rightarrow> Inl e
              | Inr qd \<Rightarrow> Inr (AdvInt4 qd, original_size, length (q4_packed_weights qd) + 16))
         | method_int8 \<Rightarrow>
             (case quantize_int8 weights of
                Inl e \<Rightarrow> Inl e
              | Inr qd \<Rightarrow> Inr (AdvInt8 qd, original_size, nd_size (q8_weights qd) + 16))
         | method_mixed \<Rightarrow>
             (case quantize_mixed_precision weights (p_name p) of
                Inl e \<Rightarrow> Inl e
              | Inr (QInt8 qd, bits) \<Rightarrow>
                  Inr (AdvInt8 qd, original_size, nd_size (q8_weights qd) + 16)
              | Inr (QInt4 qd, bits) \<Rightarrow>
                  Inr (AdvInt4 qd, original_size, length (q4_packed_weights qd) + 16))
         | method_block \<Rightarrow>
             (case quantize_block_wise weights 128 of
                Inl e \<Rightarrow> Inl e
              | Inr (WholeTensor qd bits) \<Rightarrow> Inl TypeError
              | Inr (Blocks qd) \<Rightarrow>
                  let total_block_size = sum_list (map length (qb_blocks qd));
                      scales_size = fa_nbytes (qb_scales qd);
                      zero_points_size = fa_nbytes (qb_zero_points qd)
                  in Inr (AdvBlocks qd, original_size,
                          total_block_size + scales_size + zero_points_size + 32)))
      else Inr (AdvOriginal (p_array p), nbytes p, nbytes p))"

record adv_report =
  adv_state :: "(string \<times> adv_data) list"
  adv_total_original_size :: nat
  adv_total_quantized_size :: nat
  adv_overall_compression :: rat

fun advanced_loop ::
  "quant_method \<Rightarrow> param list \<Rightarrow> (string \<times> adv_data) list \<times> nat \<times> nat \<Rightarrow>
   py_error + (string \<times> adv_data) list \<times> nat \<times> nat" where
  "advanced_loop m [] acc = Inr acc"
| "advanced_loop m (p # ps) (quantized_state, total_original_size, total_quantized_size) =
     (case advanced_tensor m p of
        Inl e \<Rightarrow> Inl e
      | Inr (d, original_size, quantized_size) \<Rightarrow>
          advanced_loop m ps
            (quantized_state @ [(p_name p, d)],
             total_original_size + original_size,
             total_quantized_size + quantized_size))"

definition advanced_quantization :: "param list \<Rightarrow> quant_method \<Rightarrow> py_error + adv_report" where
  "advanced_quantization model m =
     (case advanced_loop m model ([], 0, 0) of
        Inl e \<Rightarrow> Inl e
      | Inr (quantized_state, total_original_size, total_quantized_size) \<Rightarrow>
          if total_quantized_size = 0 then Inl ZeroDivisionError
          else Inr \<lparr>adv_state = quantized_state,
                    adv_total_original_size = total_original_size,
                    adv_total_quantized_size = total_quantized_size,
                    adv_overall_compression =
                      of_nat total_original_size / of_nat total_quantized_size\<rparr>)"

text \<open>
  \<open>quantize_weights_to_int8\<close> of whisper_proper_quantization.py quantizes with the
  formulas of \<open>quantize_int8\<close> and accounts eight bytes for the two parameters.
\<close>

definition quantize_weights_to_int8_tensor :: "param \<Rightarrow> py_error + adv_data \<times> nat \<times> nat" where
  "quantize_weights_to_int8_tensor p =
     (if p_dtype p = torch_float32 \<and> 2 \<le> length (shape (p_array p)) then
        (case quantize_int8 (p_array p) of
           Inl e \<Rightarrow> Inl e
         | Inr qd \<Rightarrow> Inr (AdvInt8 qd, nbytes p, nd_size (q8_weights qd) + 8))
      else Inr (AdvOriginal (p_array p), nbytes p, nbytes p))"

section \<open>Scheme selection\<close>

datatype scheme = Passthrough | Float16 | Int8Linear | Int4Packed | BlockInt8 nat

text \<open>
  The decision tree of \<open>mixed_precision_quantization\<close>: which branch a tensor of the
  given element type and shape takes. The branches store the dtype tags \<open>'int8'\<close>,
  \<open>'float16'\<close> and \<open>'float32'\<close> (or the name of another element type, unchanged).
\<close>

definition mixed_precision_scheme :: "torch_dtype \<Rightarrow> nat list \<Rightarrow> scheme" where
  "mixed_precision_scheme dtype shp =
     (let n = prod_list shp in
      if dtype = torch_float32 then
        if 2 \<le> length shp \<and> 1000 < n then Int8Linear
        else if 1 < n then Float16
        else Passthrough
      else Passthrough)"

text \<open>The scheme that a stored item of \<open>advanced_quantization\<close> is encoded in.\<close>

fun scheme_of :: "adv_data \<Rightarrow> scheme" where
  "scheme_of (AdvInt8 qd) = Int8Linear"
| "scheme_of (AdvInt4 qd) = Int4Packed"
| "scheme_of (AdvBlocks qd) = BlockInt8 (qb_block_size qd)"
| "scheme_of (AdvOriginal a) = Passthrough"

text \<open>
  The policy in the words of the specification (section 4.1), first match wins:
  \<open>critical\<close> is the configured set of names and \<open>large\<close> the scheme of the
  requested global mode (Int8Linear by default).
\<close>

definition select_spec :: "(string \<Rightarrow> bool) \<Rightarrow> scheme \<Rightarrow> string \<Rightarrow> nat list \<Rightarrow> nat \<Rightarrow> scheme" where
  "select_spec critical large name shp element_count =
     (if element_count \<le> 1 then Passthrough
      else if length shp < 2 then Float16
      else if critical name then Int8Linear
      else if 1000 < element_count \<and> 2 \<le> length shp then large
      else Float16)"

section \<open>Decoding (\<open>load_mixed_precision_model\<close>)\<close>

text \<open>
  A stored array is an int8 array or an array of floats of any width. A stored item is a
  dictionary that may hold the keys \<open>'dtype'\<close>, \<open>'weights'\<close>, \<open>'scale'\<close>,
  \<open>'zero_point'\<close> and \<open>'shape'\<close>; reading an absent key raises KeyError. The tag under
  \<open>'dtype'\<close> is compared with \<open>'int8'\<close> and \<open>'float16'\<close> only; a tag that is no
  string, such as the number 99, is modelled by its text. The scalars under \<open>'scale'\<close>
  and \<open>'zero_point'\<close> are float32 scalars or Python floats: combined with a float32
  array they take part as float32 values.
\<close>

datatype stored_array = Int8Array "8 word ndarray" | FloatArray "npfloat ndarray"

record mp_item =
  mp_dtype :: "string option"
  mp_weights :: "stored_array option"
  mp_scale :: "npfloat option"
  mp_zero_point :: "npfloat option"
  mp_shape :: "nat list option"

text \<open>\<open>weights.astype(np.float32)\<close>: a float of another width is rounded to float32.\<close>

fun astype_float32 :: "stored_array \<Rightarrow> npfloat ndarray" where
  "astype_float32 (Int8Array a) = nd_map int8_to_float a"
| "astype_float32 (FloatArray a) = nd_map round32 a"

text \<open>
  One round of the loop. Arithmetic on a zero-dimensional array yields a NumPy scalar,
  which \<open>torch.from_numpy\<close> refuses with TypeError; \<open>astype\<close> alone keeps the array.
\<close>

definition dequantize_item :: "mp_item \<Rightarrow> py_error + stored_array" where
  "dequantize_item d =
     (case mp_dtype d of
        None \<Rightarrow> Inl KeyError
      | Some dtype \<Rightarrow>
          if dtype = ''int8'' then
            (case mp_weights d of
               None \<Rightarrow> Inl KeyError
             | Some weights \<Rightarrow>
                 (case mp_scale d of
                    None \<Rightarrow> Inl KeyError
                  | Some scale \<Rightarrow>
                      (case mp_zero_point d of
                         None \<Rightarrow> Inl KeyError
                       | Some zero_point \<Rightarrow>
                           let dequantized =
                                 nd_map (\<lambda>w. mul32 (sub32 w (round32 zero_point)) (round32 scale))
                                   (astype_float32 weights)
                           in if shape dequantized = [] then Inl TypeError
                              else Inr (FloatArray dequantized))))
          else if dtype = ''float16'' then
            (case mp_weights d of
               None \<Rightarrow> Inl KeyError
             | Some float16_weights \<Rightarrow> Inr (FloatArray (astype_float32 float16_weights)))
          else
            (case mp_weights d of
               None \<Rightarrow> Inl KeyError
             | Some weights \<Rightarrow> Inr weights))"



text \<open>The item that the int8 branch of \<open>mixed_precision_quantization\<close> stores.\<close>

definition int8_item :: "q8 \<Rightarrow> mp_item" where
  "int8_item q =
     \<lparr>mp_dtype = Some ''int8'', mp_weights = Some (Int8Array (q8_weights q)),
      mp_scale = Some (q8_scale q), mp_zero_point = Some (q8_zero_point q),
      mp_shape = Some (q8_shape q)\<rparr>"

section \<open>Reported sizes (\<open>quantize_and_save_real\<close>)\<close>

text \<open>
  The bytes written to the file of one tensor: the rank and the dimensions as 4-byte
  integers, for int8 the two 8-byte parameters, one byte for the bit width, then the data.
\<close>

definition param_file_size :: "param \<Rightarrow> nat" where
  "param_file_size p =
     (let rank = length (shape (p_array p)) in
      if p_dtype p = torch_float32 \<and> 2 \<le> rank \<and> 1000 < numel p
        then 4 + 4 * rank + 8 + 8 + 1 + numel p
      else if p_dtype p = torch_float32 \<and> 1 < numel p
        then 4 + 4 * rank + 1 + 2 * numel p
      else 4 + 4 * rank + 1 + nbytes p)"

record real_report =
  rr_total_original_size :: nat
  rr_total_compressed_size :: nat
  rr_archive_size :: nat
  rr_real_compression :: rat
  rr_savings_mb :: rat
  rr_savings_percent :: rat

text \<open>
  The file system maps a path to the bytes of the file there. \<open>stat().st_size\<close> is
  the number of bytes of the file and fails on a path without a file.
\<close>

type_synonym file_system = "string \<Rightarrow> 8 word list option"

definition stat_size :: "file_system \<Rightarrow> string \<Rightarrow> py_error + nat" where
  "stat_size fs path = (case fs path of None \<Rightarrow> Inl FileNotFoundError | Some bytes \<Rightarrow> Inr (length bytes))"

definition archive_path :: string where
  "archive_path = ''whisper_medium_ACTUALLY_quantized.tar.gz''"

text \<open>
  \<open>archive\<close> stands for the bytes that \<open>tarfile\<close> writes for the output directory;
  how they come about is outside the model. The function writes them to
  \<open>archive_path\<close> and then asks the file system for the size of the file there. Of
  the other files it writes the model keeps the sizes only. Both ratios are divisions of
  Python integers, which raise ZeroDivisionError on a zero divisor; their rounding to a
  Python float is not modelled.
\<close>

definition quantize_and_save_real ::
  "param list \<Rightarrow> 8 word list \<Rightarrow> file_system \<Rightarrow> py_error + real_report \<times> file_system" where
  "quantize_and_save_real model archive fs =
     (let total_original_size = sum_list (map (\<lambda>p. numel p * element_size (p_dtype p)) model);
          total_compressed_size = sum_list (map param_file_size model);
          fs' = fs(archive_path \<mapsto> archive)
      in case stat_size fs' archive_path of
           Inl e \<Rightarrow> Inl e
         | Inr archive_size \<Rightarrow>
             if archive_size = 0 \<or> total_original_size = 0 then Inl ZeroDivisionError
             else Inr (\<lparr>rr_total_original_size = total_original_size,
                        rr_total_compressed_size = total_compressed_size,
                        rr_archive_size = archive_size,
                        rr_real_compression = of_nat total_original_size / of_nat archive_size,
                        rr_savings_mb =
                          (of_nat total_original_size - of_nat archive_size) / (1024 * 1024),
                        rr_savings_percent =
                          (1 - of_nat archive_size / of_nat total_original_size) * 100\<rparr>,
                       fs'))"

text \<open>
  The closing summary of \<open>compare_quantization_methods\<close>, for the size in MB of one
  saved file: the original size is the constant 1457.
\<close>

definition compare_summary :: "rat \<Rightarrow> rat \<times> rat" where
  "compare_summary file_size_mb =
     (let original_size = 1457;
          size = file_size_mb;
          compression = (if 0 < size then original_size / size else 0);
          savings = original_size - size
      in (compression, savings))"

text \<open>\<open>save_advanced_quantized_model\<close> returns the size of the written file in MB.\<close>

definition file_size_mb :: "nat \<Rightarrow> rat" where
  "file_size_mb st_size = of_nat st_size / (1024 * 1024)"

section \<open>The rounding functions\<close>

text \<open>
  \<open>rint\<close> is within one half of its argument, \<open>ilog2\<close> is the binary exponent, and
  a finite \<open>float32 x\<close> is within half the spacing of the binary32 values at \<open>x\<close>.
\<close>

lemma rint_error: "\<bar>of_int (rint x) - x\<bar> \<le> 1 / 2"
proof -
  have "of_int \<lfloor>x\<rfloor> \<le> x" "x < of_int \<lfloor>x\<rfloor> + 1" by linarith+
  then show ?thesis
    by (auto simp: rint_def Let_def abs_le_iff)
qed

lemma bit_length_bounds:
  "0 < n \<Longrightarrow> 0 < bit_length n \<and> 2 ^ nat (bit_length n - 1) \<le> n \<and> n < 2 ^ nat (bit_length n)"
proof (induction n rule: bit_length.induct)
  case (1 n)
  have bl: "bit_length n = 1 + bit_length (n div 2)"
    using "1.prems" by (simp add: bit_length.simps)
  show ?case
  proof (cases "n = 1")
    case True
    have "bit_length (0::int) = 0" by (simp add: bit_length.simps)
    then have "bit_length n = 1" using True bl by simp
    then show ?thesis using True by simp
  next
    case False
    then have h: "0 < n div 2" using "1.prems" by simp
    have nle: "\<not> n \<le> 0" using "1.prems" by simp
    from "1.IH" [OF nle h] have
      k: "0 < bit_length (n div 2)"
         "2 ^ nat (bit_length (n div 2) - 1) \<le> n div 2"
         "n div 2 < 2 ^ nat (bit_length (n div 2))"
      by simp_all
    define k where "k = nat (bit_length (n div 2))"
    have kb: "bit_length (n div 2) = int k" using k(1) by (simp add: k_def)
    have kpos: "0 < k" using k(1) by (simp add: k_def)
    have a: "nat (bit_length n - 1) = k" by (simp add: bl kb)
    have b: "nat (bit_length n) = Suc k" by (simp add: bl kb)
    have lo: "(2::int) ^ k \<le> n"
    proof -
      have "(2::int) ^ k = 2 * 2 ^ (k - 1)" using kpos by (cases k) simp_all
      also have "\<dots> \<le> 2 * (n div 2)"
      proof -
        have "nat (int k - 1) = k - 1" by arith
        then show ?thesis using k(2) by (simp add: kb)
      qed
      also have "\<dots> \<le> n" by simp
      finally show ?thesis .
    qed
    have hi: "n < 2 ^ Suc k"
    proof -
      have "n div 2 + 1 \<le> 2 ^ k" using k(3) by (simp add: kb)
      then have "2 * (n div 2) + 2 \<le> 2 ^ Suc k" by simp
      moreover have "n < 2 * (n div 2) + 2" by linarith
      ultimately show ?thesis by linarith
    qed
    have p: "0 < bit_length n" by (simp add: bl kb)
    show ?thesis unfolding a b by (intro conjI) (rule p lo hi)+
  qed
qed

lemma ilog2_bounds:
  assumes "0 < x"
  shows "pow2 (ilog2 x) \<le> x \<and> x < pow2 (ilog2 x + 1)"
proof (cases "1 \<le> x")
  case True
  then have f: "0 < \<lfloor>x\<rfloor>" by linarith
  note b = bit_length_bounds [OF f]
  define k where "k = nat (bit_length \<lfloor>x\<rfloor> - 1)"
  have e: "ilog2 x = int k" using True b by (simp add: ilog2_def k_def)
  have k1: "nat (bit_length \<lfloor>x\<rfloor>) = Suc k" using b unfolding k_def by arith
  have "(2::int) ^ k \<le> \<lfloor>x\<rfloor>" using b by (simp add: k_def)
  then have "of_int ((2::int) ^ k) \<le> x" by (simp only: le_floor_iff)
  then have lo: "(2::rat) ^ k \<le> x" by simp
  have "\<lfloor>x\<rfloor> < 2 ^ Suc k" using b by (simp only: k1)
  then have "x < of_int ((2::int) ^ Suc k)" by (simp only: floor_less_iff)
  then have hi: "x < (2::rat) ^ Suc k" by simp
  have "nat (int k + 1) = Suc k" by simp
  then show ?thesis using lo hi by (simp add: e pow2_def)
next
  case False
  then have x1: "x < 1" by simp
  define m where "m = \<lceil>1 / x\<rceil> - 1"
  have y1: "1 < 1 / x" using assms x1 by simp
  then have m0: "0 < m" unfolding m_def by linarith
  note b = bit_length_bounds [OF m0]
  define k where "k = nat (bit_length m)"
  have kb: "bit_length m = int k" using b by (simp add: k_def)
  have kpos: "0 < k" using b by (simp add: k_def)
  have e: "ilog2 x = - int k" using False by (simp add: ilog2_def m_def [symmetric] kb)
  have "m < 2 ^ k" using b by (simp add: k_def)
  then have "\<lceil>1 / x\<rceil> \<le> 2 ^ k" by (simp add: m_def)
  then have "1 / x \<le> of_int ((2::int) ^ k)" by (simp only: ceiling_le_iff)
  then have u: "1 / x \<le> (2::rat) ^ k" by simp
  have lo: "1 / 2 ^ k \<le> x"
  proof -
    from u assms have "1 \<le> 2 ^ k * x" by (simp add: field_simps)
    then show ?thesis by (simp add: field_simps)
  qed
  have n2: "nat (int k - 1) = k - 1" by arith
  have "(2::int) ^ (k - 1) \<le> m" using b by (simp add: kb n2)
  then have "(2::int) ^ (k - 1) < \<lceil>1 / x\<rceil>" by (simp add: m_def)
  then have "of_int ((2::int) ^ (k - 1)) < 1 / x" by (simp only: less_ceiling_iff)
  then have v: "(2::rat) ^ (k - 1) < 1 / x" by simp
  have hi: "x < 1 / 2 ^ (k - 1)"
  proof -
    from v assms have "2 ^ (k - 1) * x < 1" by (simp add: field_simps)
    then show ?thesis by (simp add: field_simps)
  qed
  show ?thesis
  proof (cases "k = 1")
    case True
    then show ?thesis using lo hi by (simp add: e pow2_def)
  next
    case False
    then have "1 < k" using kpos by simp
    then have "\<not> 0 \<le> 1 - int k" by simp
    then show ?thesis using lo hi kpos by (simp add: e pow2_def n2)
  qed
qed

lemma pow2_pos: "0 < pow2 e"
  by (simp add: pow2_def)

lemma float32_error:
  assumes "float32 x = Fin y"
  shows "\<bar>y - x\<bar> \<le> pow2 (max (ilog2 \<bar>x\<bar>) (- 126) - 23) / 2"
proof (cases "x = 0")
  case True
  then show ?thesis using assms pow2_pos [of "max (ilog2 \<bar>x\<bar>) (- 126) - 23"]
    by (simp add: float32_def)
next
  case False
  define q where "q = pow2 (max (ilog2 \<bar>x\<bar>) (- 126) - 23)"
  have qpos: "0 < q" by (simp add: q_def pow2_pos)
  have y: "y = of_int (rint (x / q)) * q"
    using assms False
    by (simp add: float32_def Let_def q_def signed_inf_def split: if_splits)
  have "y - x = (of_int (rint (x / q)) - x / q) * q"
    using qpos by (simp add: y field_simps)
  then have "\<bar>y - x\<bar> = \<bar>of_int (rint (x / q)) - x / q\<bar> * q"
    using qpos by (simp add: abs_mult)
  also have "\<dots> \<le> 1 / 2 * q"
    using rint_error [of "x / q"] qpos by (intro mult_right_mono) simp_all
  finally show ?thesis by (simp add: q_def)
qed

section \<open>Properties of the Int4 packing\<close>

lemma le15_take_bit: "(l::8 word) \<le> 15 \<Longrightarrow> take_bit 4 l = l"
proof -
  assume "l \<le> 15"
  then have "uint l \<le> 15" by (simp add: word_le_def)
  then have "uint l < 2 ^ 4" by simp
  then have "l AND mask 4 = l" by (simp only: mask_eq_iff)
  then show ?thesis by (simp add: take_bit_eq_mask)
qed

lemma le15_bit: "(l::8 word) \<le> 15 \<Longrightarrow> bit l n \<Longrightarrow> n < 4"
proof -
  assume a: "l \<le> 15" and b: "bit l n"
  from a have "take_bit 4 l = l" by (rule le15_take_bit)
  then have "bit (take_bit 4 l) n" using b by simp
  then show ?thesis by (simp add: bit_take_bit_iff)
qed

lemma mask4: "(15::8 word) = mask 4"
  by (simp add: mask_eq_exp_minus_1)

lemma nibble_low:
  assumes "l \<le> 15"
  shows "(push_bit 4 h OR l) AND 15 = (l::8 word)"
proof -
  have "(push_bit 4 h OR l) AND mask 4 = l"
    using assms by (intro bit_word_eqI) (auto simp: bit_simps dest: le15_bit)
  then show ?thesis by (simp only: mask4)
qed

lemma nibble_high: "h \<le> 15 \<Longrightarrow> l \<le> 15 \<Longrightarrow> drop_bit 4 (push_bit 4 h OR l) = (h :: 8 word)"
  by (rule bit_word_eqI) (auto simp: bit_simps dest: le15_bit)

lemma np_clip_le: "np_clip 0 15 q \<le> 15"
  by (simp add: np_clip_def not_less)

lemma int4_codes_length: "length (int4_codes s z ws) = length ws"
  by (simp add: int4_codes_def)

lemma int4_codes_le: "i < length ws \<Longrightarrow> int4_codes s z ws ! i \<le> 15"
  by (simp add: int4_codes_def np_clip_le)

lemma pack_int4_length: "length (pack_int4 q) = (length q + 1) div 2"
  by (simp add: pack_int4_def)

lemma pack_int4_nth:
  "j < (length q + 1) div 2 \<Longrightarrow>
   pack_int4 q ! j =
     push_bit 4 (if 2 * j + 1 < length q then q ! (2 * j + 1) else 0) OR q ! (2 * j)"
  by (simp add: pack_int4_def Let_def)

lemma pack_int4_low:
  assumes "\<forall>i<length q. q ! i \<le> 15" "2 * j < length q"
  shows "pack_int4 q ! j AND 15 = q ! (2 * j)"
proof -
  have j: "j < (length q + 1) div 2" using assms(2) by linarith
  have "q ! (2 * j) \<le> 15" using assms by blast
  then show ?thesis by (simp only: pack_int4_nth [OF j] nibble_low)
qed

lemma pack_int4_high:
  assumes "\<forall>i<length q. q ! i \<le> 15" "2 * j < length q"
  shows "drop_bit 4 (pack_int4 q ! j) = (if 2 * j + 1 < length q then q ! (2 * j + 1) else 0)"
proof -
  have j: "j < (length q + 1) div 2" using assms(2) by linarith
  have l: "q ! (2 * j) \<le> 15" using assms by blast
  have h: "(if 2 * j + 1 < length q then q ! (2 * j + 1) else 0) \<le> 15"
    using assms(1) by auto
  show ?thesis by (simp only: pack_int4_nth [OF j] nibble_high [OF h l])
qed

lemma concat_pairs_length: "length (concat (map (\<lambda>b. [f b, g b]) xs)) = 2 * length xs"
  by (induction xs) auto

lemma concat_pairs_nth:
  "i < 2 * length xs \<Longrightarrow>
   concat (map (\<lambda>b. [f b, g b]) xs) ! i = (if even i then f (xs ! (i div 2)) else g (xs ! (i div 2)))"
proof (induction xs arbitrary: i)
  case Nil
  then show ?case by simp
next
  case (Cons x xs)
  show ?case
  proof (cases "i < 2")
    case True
    then have "i = 0 \<or> i = 1" by linarith
    then show ?thesis by auto
  next
    case False
    define k where "k = i - 2"
    have k: "i = Suc (Suc k)" using False by (simp add: k_def)
    with Cons.prems have "k < 2 * length xs" by simp
    from Cons.IH [OF this] show ?thesis by (simp add: k)
  qed
qed

lemma np_clip_min: "np_clip 0 15 q = min 15 q"
  by (auto simp: np_clip_def min_def not_less)

lemma int4_codes_nth:
  "i < length ws \<Longrightarrow>
   int4_codes s z ws ! i = min 15 (astype_uint8 (np_round (div32 (sub32 (Fin (ws ! i)) z) s)))"
  by (simp add: int4_codes_def np_clip_min)

lemma int4_codes_map:
  "int4_codes s z ws = map (\<lambda>w. min 15 (astype_uint8 (np_round (div32 (sub32 (Fin w) z) s)))) ws"
  by (simp add: int4_codes_def np_clip_min)

lemma nibbles_of_pack_int4:
  assumes "\<forall>i<length q. q ! i \<le> 15"
  shows "take (length q) (concat (map (\<lambda>b. [b AND 15, drop_bit 4 b]) (pack_int4 q))) = q"
proof (rule nth_equalityI)
  show len: "length (take (length q) (concat (map (\<lambda>b. [b AND 15, drop_bit 4 b]) (pack_int4 q)))) =
             length q"
    by (simp add: concat_pairs_length pack_int4_length)
  fix i
  assume "i < length (take (length q) (concat (map (\<lambda>b. [b AND 15, drop_bit 4 b]) (pack_int4 q))))"
  then have i: "i < length q" by (simp only: len)
  then have i2: "i < 2 * length (pack_int4 q)" by (simp add: pack_int4_length)
  have j: "2 * (i div 2) < length q" using i by linarith
  have "take (length q) (concat (map (\<lambda>b. [b AND 15, drop_bit 4 b]) (pack_int4 q))) ! i =
        (if even i then pack_int4 q ! (i div 2) AND 15 else drop_bit 4 (pack_int4 q ! (i div 2)))"
    using i by (simp add: concat_pairs_nth [OF i2])
  also have "\<dots> = q ! i"
  proof (cases "even i")
    case True
    then have "2 * (i div 2) = i" by simp
    with pack_int4_low [OF assms j] True show ?thesis by simp
  next
    case False
    then have e: "2 * (i div 2) + 1 = i" by presburger
    with pack_int4_high [OF assms j] i False show ?thesis by simp
  qed
  finally show "take (length q) (concat (map (\<lambda>b. [b AND 15, drop_bit 4 b]) (pack_int4 q))) ! i =
                q ! i" .
qed

text \<open>
  Claim C4, as amended. For every array with at least one element, \<open>quantize_int4\<close>
  uses \<open>scale = (w_max - w_min) / 15.0\<close> and \<open>zero_point = w_min\<close>; the code of an
  element \<open>w\<close> is \<open>round((w - zero_point) / scale)\<close> cast to an unsigned byte and
  clamped to at most 15; byte \<open>j\<close> of the packed array holds code \<open>2 * j\<close> in its low
  nibble and code \<open>2 * j + 1\<close> in its high nibble; the high nibble of the last byte is
  0 when the element count is odd; and the element count is recorded as
  \<open>original_size\<close>, so that the first \<open>original_size\<close> nibbles of the packed bytes,
  low before high, are exactly the codes.
\<close>

theorem quantize_int4_layout:
  assumes "flat weights \<noteq> []"
  shows "\<exists>r. quantize_int4 weights = Inr r \<and>
     q4_scale r =
       div32 (sub32 (Fin (Max (set (flat weights)))) (Fin (Min (set (flat weights))))) (Fin 15) \<and>
     q4_zero_point r = Fin (Min (set (flat weights))) \<and>
     q4_original_size r = length (flat weights) \<and>
     q4_shape r = shape weights \<and>
     length (q4_packed_weights r) = (length (flat weights) + 1) div 2 \<and>
     (\<forall>j. 2 * j < length (flat weights) \<longrightarrow>
        q4_packed_weights r ! j AND 15 =
          min 15 (astype_uint8 (np_round
            (div32 (sub32 (Fin (flat weights ! (2 * j))) (q4_zero_point r)) (q4_scale r))))) \<and>
     (\<forall>j. 2 * j + 1 < length (flat weights) \<longrightarrow>
        drop_bit 4 (q4_packed_weights r ! j) =
          min 15 (astype_uint8 (np_round
            (div32 (sub32 (Fin (flat weights ! (2 * j + 1))) (q4_zero_point r)) (q4_scale r))))) \<and>
     (odd (length (flat weights)) \<longrightarrow> drop_bit 4 (last (q4_packed_weights r)) = 0) \<and>
     take (q4_original_size r)
       (concat (map (\<lambda>b. [b AND 15, drop_bit 4 b]) (q4_packed_weights r))) =
       map (\<lambda>w. min 15 (astype_uint8 (np_round
              (div32 (sub32 (Fin w) (q4_zero_point r)) (q4_scale r))))) (flat weights)"
proof -
  define s where
    "s = div32 (sub32 (Fin (Max (set (flat weights)))) (Fin (Min (set (flat weights))))) (Fin 15)"
  define z where "z = Fin (Min (set (flat weights)))"
  define q where "q = int4_codes s z (flat weights)"
  define r where
    "r = \<lparr>q4_packed_weights = pack_int4 q, q4_scale = s, q4_zero_point = z,
          q4_shape = shape weights, q4_original_size = length q\<rparr>"
  have n: "length q = length (flat weights)"
    by (simp add: q_def int4_codes_length)
  have le: "\<forall>i<length q. q ! i \<le> 15"
    by (simp add: q_def int4_codes_length int4_codes_le)
  have res: "quantize_int4 weights = Inr r"
    using assms by (simp add: quantize_int4_def Let_def r_def q_def s_def z_def)
  have rs: "q4_scale r = s" and rz: "q4_zero_point r = z"
    and rp: "q4_packed_weights r = pack_int4 q" and ro: "q4_original_size r = length q"
    by (simp_all add: r_def)
  have code: "q ! i = min 15 (astype_uint8 (np_round (div32 (sub32 (Fin (flat weights ! i)) z) s)))"
    if "i < length (flat weights)" for i
    using that by (simp add: q_def int4_codes_nth)
  show ?thesis
  proof (intro exI [of _ r] conjI)
    show "quantize_int4 weights = Inr r" by (rule res)
    show "q4_scale r =
       div32 (sub32 (Fin (Max (set (flat weights)))) (Fin (Min (set (flat weights))))) (Fin 15)"
      by (simp add: r_def s_def)
    show "q4_zero_point r = Fin (Min (set (flat weights)))" by (simp add: r_def z_def)
    show "q4_original_size r = length (flat weights)" by (simp add: r_def n)
    show "q4_shape r = shape weights" by (simp add: r_def)
    show "length (q4_packed_weights r) = (length (flat weights) + 1) div 2"
      by (simp add: r_def pack_int4_length n)
    show "\<forall>j. 2 * j < length (flat weights) \<longrightarrow>
        q4_packed_weights r ! j AND 15 =
          min 15 (astype_uint8 (np_round
            (div32 (sub32 (Fin (flat weights ! (2 * j))) (q4_zero_point r)) (q4_scale r))))"
    proof (intro allI impI)
      fix j assume a: "2 * j < length (flat weights)"
      then have "2 * j < length q" by (simp only: n)
      from pack_int4_low [OF le this] code [OF a]
      show "q4_packed_weights r ! j AND 15 =
          min 15 (astype_uint8 (np_round
            (div32 (sub32 (Fin (flat weights ! (2 * j))) (q4_zero_point r)) (q4_scale r))))"
        by (simp only: rs rz rp)
    qed
    show "\<forall>j. 2 * j + 1 < length (flat weights) \<longrightarrow>
        drop_bit 4 (q4_packed_weights r ! j) =
          min 15 (astype_uint8 (np_round
            (div32 (sub32 (Fin (flat weights ! (2 * j + 1))) (q4_zero_point r)) (q4_scale r))))"
    proof (intro allI impI)
      fix j assume a: "2 * j + 1 < length (flat weights)"
      then have b: "2 * j + 1 < length q" by (simp only: n)
      then have "2 * j < length q" by simp
      from pack_int4_high [OF le this] b
      have "drop_bit 4 (pack_int4 q ! j) = q ! (2 * j + 1)" by simp
      with code [OF a]
      show "drop_bit 4 (q4_packed_weights r ! j) =
          min 15 (astype_uint8 (np_round
            (div32 (sub32 (Fin (flat weights ! (2 * j + 1))) (q4_zero_point r)) (q4_scale r))))"
        by (simp only: rs rz rp)
    qed
    show "odd (length (flat weights)) \<longrightarrow> drop_bit 4 (last (q4_packed_weights r)) = 0"
    proof
      assume "odd (length (flat weights))"
      with n have o: "odd (length q)" by simp
      then have pos: "0 < length q" by (cases "length q") auto
      define j where "j = (length q + 1) div 2 - 1"
      have ne: "pack_int4 q \<noteq> []"
        using pos by (simp add: pack_int4_def)
      have l: "last (pack_int4 q) = pack_int4 q ! j"
        by (simp add: last_conv_nth [OF ne] pack_int4_length j_def)
      have j2: "2 * j + 1 = length q"
        using o pos unfolding j_def by presburger
      then have "2 * j < length q" by simp
      from pack_int4_high [OF le this] j2 show "drop_bit 4 (last (q4_packed_weights r)) = 0"
        by (simp add: l rp)
    qed
    show "take (q4_original_size r)
       (concat (map (\<lambda>b. [b AND 15, drop_bit 4 b]) (q4_packed_weights r))) =
       map (\<lambda>w. min 15 (astype_uint8 (np_round
              (div32 (sub32 (Fin w) (q4_zero_point r)) (q4_scale r))))) (flat weights)"
      using nibbles_of_pack_int4 [OF le]
      by (simp only: rs rz rp ro) (simp only: q_def int4_codes_map)
  qed
qed

theorem quantize_int4_layout_witness:
  "flat \<lparr>shape = [3], flat = [0, 1 / 2, 1 :: rat]\<rparr> \<noteq> [] \<and>
   quantize_int4 \<lparr>shape = [3], flat = [0, 1 / 2, 1]\<rparr> =
     Inr \<lparr>q4_packed_weights = [112, 15], q4_scale = Fin (8947849 / 134217728),
          q4_zero_point = Fin 0, q4_shape = [3], q4_original_size = 3\<rparr> \<and>
   take 3 (concat (map (\<lambda>b. [b AND 15, drop_bit 4 b]) [112, 15 :: 8 word])) = [0, 7, 15] \<and>
   drop_bit 4 (last [112, 15 :: 8 word]) = 0"
proof -
  let ?w = "\<lparr>shape = [3], flat = [0, 1 / 2, 1 :: rat]\<rparr>"
  let ?r = "\<lparr>q4_packed_weights = [112, 15], q4_scale = Fin (8947849 / 134217728),
          q4_zero_point = Fin 0, q4_shape = [3], q4_original_size = 3\<rparr>"
  have h: "flat ?w \<noteq> []" by simp
  have v: "quantize_int4 ?w = Inr ?r" by code_simp
  from quantize_int4_layout [OF h] obtain r where
    r: "quantize_int4 ?w = Inr r \<and>
     q4_scale r = div32 (sub32 (Fin (Max (set (flat ?w)))) (Fin (Min (set (flat ?w))))) (Fin 15) \<and>
     q4_zero_point r = Fin (Min (set (flat ?w))) \<and>
     q4_original_size r = length (flat ?w) \<and>
     q4_shape r = shape ?w \<and>
     length (q4_packed_weights r) = (length (flat ?w) + 1) div 2 \<and>
     (\<forall>j. 2 * j < length (flat ?w) \<longrightarrow>
        q4_packed_weights r ! j AND 15 =
          min 15 (astype_uint8 (np_round
            (div32 (sub32 (Fin (flat ?w ! (2 * j))) (q4_zero_point r)) (q4_scale r))))) \<and>
     (\<forall>j. 2 * j + 1 < length (flat ?w) \<longrightarrow>
        drop_bit 4 (q4_packed_weights r ! j) =
          min 15 (astype_uint8 (np_round
            (div32 (sub32 (Fin (flat ?w ! (2 * j + 1))) (q4_zero_point r)) (q4_scale r))))) \<and>
     (odd (length (flat ?w)) \<longrightarrow> drop_bit 4 (last (q4_packed_weights r)) = 0) \<and>
     take (q4_original_size r)
       (concat (map (\<lambda>b. [b AND 15, drop_bit 4 b]) (q4_packed_weights r))) =
       map (\<lambda>w. min 15 (astype_uint8 (np_round
              (div32 (sub32 (Fin w) (q4_zero_point r)) (q4_scale r))))) (flat ?w)" ..
  have e: "r = ?r" using r [THEN conjunct1] v by simp
  note t = r [unfolded e, THEN conjunct2, THEN conjunct2, THEN conjunct2, THEN conjunct2,
              THEN conjunct2, THEN conjunct2, THEN conjunct2, THEN conjunct2]
  have c: "map (\<lambda>w. min 15 (astype_uint8 (np_round
              (div32 (sub32 (Fin w) (Fin 0)) (Fin (8947849 / 134217728))))))
            [0, 1 / 2, 1] = [0, 7, 15 :: 8 word]"
    by code_simp
  have a: "take 3 (concat (map (\<lambda>b. [b AND 15, drop_bit 4 b]) [112, 15 :: 8 word])) = [0, 7, 15]"
    using t [THEN conjunct2] c by simp
  have b: "drop_bit 4 (last [112, 15 :: 8 word]) = 0"
    using t [THEN conjunct1] by simp
  show ?thesis by (intro conjI) (rule h v a b)+
qed

text \<open>
  Claim C4 as stated fails on an array without elements: \<open>weights.min()\<close> raises
  ValueError and nothing is encoded.
\<close>

theorem quantize_int4_layout_counterexample:
  "quantize_int4 \<lparr>shape = [0], flat = []\<rparr> = Inl ValueError"
  by (simp add: quantize_int4_def)

section \<open>Properties of the block-wise quantization\<close>

lemma block_slice_eq: "block_slice xs bs i = take bs (drop (i * bs) xs)"
proof (cases "(i + 1) * bs \<le> length xs")
  case True
  then show ?thesis by (simp add: block_slice_def Let_def min_def)
next
  case False
  then have "length (drop (i * bs) xs) \<le> bs" by simp
  then have "take bs (drop (i * bs) xs) = drop (i * bs) xs" by simp
  moreover from False have "block_slice xs bs i = drop (i * bs) xs"
    by (simp add: block_slice_def Let_def min_def)
  ultimately show ?thesis by simp
qed

lemma block_slice_length: "length (block_slice xs bs i) = min bs (length xs - i * bs)"
  by (simp add: block_slice_eq min.commute)

lemma concat_block_slices:
  "concat (map (block_slice xs bs) [0 ..< k]) = take (k * bs) xs"
proof (induction k)
  case 0
  then show ?case by simp
next
  case (Suc k)
  have "take (k * bs + bs) xs = take (k * bs) xs @ take bs (drop (k * bs) xs)"
    by (rule take_add)
  with Suc show ?case by (simp add: block_slice_eq add.commute)
qed

lemma num_blocks_index:
  assumes "0 < bs" "i < (n + bs - 1) div bs"
  shows "i * bs < (n::nat)"
proof -
  from assms(2) have "Suc i \<le> (n + bs - 1) div bs" by simp
  then have "Suc i * bs \<le> (n + bs - 1) div bs * bs" by (rule mult_le_mono1)
  also have "\<dots> \<le> n + bs - 1" by (rule div_times_less_eq_dividend)
  finally show ?thesis using assms(1) by simp
qed

lemma num_blocks_cover:
  assumes "0 < bs"
  shows "(n::nat) \<le> (n + bs - 1) div bs * bs"
proof -
  have "(n + bs - 1) mod bs < bs" using assms by simp
  moreover have "(n + bs - 1) div bs * bs + (n + bs - 1) mod bs = n + bs - 1"
    by (rule div_mult_mod_eq)
  ultimately show ?thesis by linarith
qed

lemma num_blocks_full:
  assumes "0 < bs" "Suc i < (n + bs - 1) div bs"
  shows "bs \<le> (n::nat) - i * bs"
proof -
  from num_blocks_index [OF assms] have "i * bs + bs < n" by simp
  then show ?thesis by simp
qed

lemma quantize_block_Inr:
  assumes "block \<noteq> []"
  shows "\<exists>q s z. quantize_block block = Inr (q, s, z) \<and> length q = length block"
  using assms by (simp add: quantize_block_def Let_def)

lemma block_loop_Inr:
  assumes "\<forall>i\<in>set is. block_slice fw bs i \<noteq> []"
  shows "\<exists>r. block_loop fw bs is = Inr r \<and> length r = length is \<and>
            (\<forall>j<length is. quantize_block (block_slice fw bs (is ! j)) = Inr (r ! j))"
  using assms
proof (induction "is")
  case Nil
  then show ?case by simp
next
  case (Cons i "is")
  then have "block_slice fw bs i \<noteq> []" by simp
  from quantize_block_Inr [OF this] obtain b where
    b: "quantize_block (block_slice fw bs i) = Inr b" by auto
  from Cons obtain r where
    r: "block_loop fw bs is = Inr r" "length r = length is"
       "\<forall>j<length is. quantize_block (block_slice fw bs (is ! j)) = Inr (r ! j)"
    by auto
  have "\<forall>j<length (i # is). quantize_block (block_slice fw bs ((i # is) ! j)) = Inr ((b # r) ! j)"
  proof (intro allI impI)
    fix j assume "j < length (i # is)"
    then show "quantize_block (block_slice fw bs ((i # is) ! j)) = Inr ((b # r) ! j)"
      using b r(3) by (cases j) auto
  qed
  moreover have "block_loop fw bs (i # is) = Inr (b # r)" by (simp add: b r(1))
  ultimately show ?case using r(2) by simp
qed

lemma quantize_block_wise_blocks:
  assumes "0 < bs" "bs \<le> nd_size w"
  shows "\<exists>r. length r = (nd_size w + bs - 1) div bs \<and>
     (\<forall>j<(nd_size w + bs - 1) div bs.
         quantize_block (block_slice (flat w) bs j) = Inr (r ! j)) \<and>
     quantize_block_wise w bs =
       Inr (Blocks \<lparr>qb_blocks = map fst r,
                    qb_scales = np_array (map (fst \<circ> snd) r),
                    qb_zero_points = np_array (map (snd \<circ> snd) r),
                    qb_shape = shape w, qb_block_size = bs\<rparr>)"
proof -
  let ?num = "(nd_size w + bs - 1) div bs"
  have ne: "\<forall>i\<in>set [0 ..< ?num]. block_slice (flat w) bs i \<noteq> []"
  proof
    fix i assume "i \<in> set [0 ..< ?num]"
    then have "i < ?num" by simp
    from num_blocks_index [OF assms(1) this] have "i * bs < length (flat w)"
      by (simp add: nd_size_def)
    then have "0 < length (block_slice (flat w) bs i)"
      using assms(1) by (simp add: block_slice_length)
    then show "block_slice (flat w) bs i \<noteq> []" by simp
  qed
  from block_loop_Inr [OF ne] obtain r where
    r: "block_loop (flat w) bs [0 ..< ?num] = Inr r" "length r = ?num"
       "\<forall>j<?num. quantize_block (block_slice (flat w) bs ([0 ..< ?num] ! j)) = Inr (r ! j)"
    by auto
  have r3: "\<forall>j<?num. quantize_block (block_slice (flat w) bs j) = Inr (r ! j)"
    using r(3) by simp
  have "quantize_block_wise w bs =
       Inr (Blocks \<lparr>qb_blocks = map fst r,
                    qb_scales = np_array (map (fst \<circ> snd) r),
                    qb_zero_points = np_array (map (snd \<circ> snd) r),
                    qb_shape = shape w, qb_block_size = bs\<rparr>)"
    using assms r(1) by (simp add: quantize_block_wise_def Let_def nd_size_def)
  with r(2) r3 show ?thesis by blast
qed

lemma quantize_block_length:
  "quantize_block block = Inr (q, s, z) \<Longrightarrow> length q = length block"
  by (auto simp: quantize_block_def Let_def split: if_splits)


lemma np_array_values_length: "length (fa_values (np_array xs)) = length xs"
  by (simp add: np_array_def)

lemma np_array_values_nth: "i < length xs \<Longrightarrow> fa_values (np_array xs) ! i = scalar_value (xs ! i)"
  by (simp add: np_array_def)

text \<open>
  Claim C6, as amended. For every array with at least \<open>block_size\<close> elements and a
  positive \<open>block_size\<close>, \<open>quantize_block_wise\<close> returns blocks: their number is the
  element count divided by \<open>block_size\<close> and rounded up, block \<open>i\<close> encodes the
  contiguous slice starting at \<open>i * block_size\<close>, every block but the last has exactly
  \<open>block_size\<close> codes, the slices together are the flattened array, and each block is
  quantized from its own slice alone, with its own scale and zero point.
\<close>

theorem quantize_block_wise_partition:
  assumes "0 < block_size" "block_size \<le> nd_size weights"
  shows "\<exists>b. quantize_block_wise weights block_size = Inr (Blocks b) \<and>
     length (qb_blocks b) = (nd_size weights + block_size - 1) div block_size \<and>
     map length (qb_blocks b) =
       map (\<lambda>i. min block_size (nd_size weights - i * block_size)) [0 ..< length (qb_blocks b)] \<and>
     (\<forall>i. Suc i < length (qb_blocks b) \<longrightarrow> length (qb_blocks b ! i) = block_size) \<and>
     (\<forall>i<length (qb_blocks b). qb_blocks b ! i \<noteq> []) \<and>
     concat (map (block_slice (flat weights) block_size) [0 ..< length (qb_blocks b)]) =
       flat weights \<and>
     length (fa_values (qb_scales b)) = length (qb_blocks b) \<and>
     length (fa_values (qb_zero_points b)) = length (qb_blocks b) \<and>
     (\<forall>i<length (qb_blocks b). \<exists>s z.
        quantize_block (block_slice (flat weights) block_size i) = Inr (qb_blocks b ! i, s, z) \<and>
        fa_values (qb_scales b) ! i = scalar_value s \<and>
        fa_values (qb_zero_points b) ! i = scalar_value z)"
proof -
  let ?n = "nd_size weights"
  let ?num = "(?n + block_size - 1) div block_size"
  from quantize_block_wise_blocks [OF assms] obtain r where
    len: "length r = ?num" and
    blk: "\<forall>j<?num. quantize_block (block_slice (flat weights) block_size j) = Inr (r ! j)" and
    res: "quantize_block_wise weights block_size =
       Inr (Blocks \<lparr>qb_blocks = map fst r,
                    qb_scales = np_array (map (fst \<circ> snd) r),
                    qb_zero_points = np_array (map (snd \<circ> snd) r),
                    qb_shape = shape weights, qb_block_size = block_size\<rparr>)"
    by blast
  define b where
    "b = \<lparr>qb_blocks = map fst r,
          qb_scales = np_array (map (fst \<circ> snd) r),
          qb_zero_points = np_array (map (snd \<circ> snd) r),
          qb_shape = shape weights, qb_block_size = block_size\<rparr>"
  have nb: "length (qb_blocks b) = ?num" by (simp add: b_def len)
  have bl: "length (qb_blocks b ! i) = min block_size (?n - i * block_size)" if "i < ?num" for i
  proof -
    from blk that have q: "quantize_block (block_slice (flat weights) block_size i) = Inr (r ! i)"
      by blast
    obtain c s z where c: "r ! i = (c, s, z)" by (cases "r ! i") auto
    from quantize_block_length [OF q [unfolded c]]
    have "length c = min block_size (?n - i * block_size)"
      by (simp add: block_slice_length nd_size_def)
    moreover have "qb_blocks b ! i = c" using that c by (simp add: b_def len)
    ultimately show ?thesis by simp
  qed
  show ?thesis
  proof (intro exI [of _ b] conjI)
    show "quantize_block_wise weights block_size = Inr (Blocks b)"
      by (simp only: res b_def)
    show "length (qb_blocks b) = ?num" by (rule nb)
    show "map length (qb_blocks b) =
       map (\<lambda>i. min block_size (?n - i * block_size)) [0 ..< length (qb_blocks b)]"
      by (rule nth_equalityI) (simp_all add: nb bl)
    show "\<forall>i. Suc i < length (qb_blocks b) \<longrightarrow> length (qb_blocks b ! i) = block_size"
    proof (intro allI impI)
      fix i assume a: "Suc i < length (qb_blocks b)"
      then have s: "Suc i < ?num" by (simp only: nb)
      then have "i < ?num" by simp
      from bl [OF this] num_blocks_full [OF assms(1) s]
      show "length (qb_blocks b ! i) = block_size" by simp
    qed
    show "\<forall>i<length (qb_blocks b). qb_blocks b ! i \<noteq> []"
    proof (intro allI impI)
      fix i assume "i < length (qb_blocks b)"
      then have i: "i < ?num" by (simp only: nb)
      from num_blocks_index [OF assms(1) i] bl [OF i] assms(1)
      have "0 < length (qb_blocks b ! i)" by simp
      then show "qb_blocks b ! i \<noteq> []" by simp
    qed
    show "concat (map (block_slice (flat weights) block_size) [0 ..< length (qb_blocks b)]) =
       flat weights"
      using num_blocks_cover [OF assms(1), of ?n]
      by (simp add: nb concat_block_slices nd_size_def)
    show "length (fa_values (qb_scales b)) = length (qb_blocks b)"
      by (simp add: b_def np_array_values_length)
    show "length (fa_values (qb_zero_points b)) = length (qb_blocks b)"
      by (simp add: b_def np_array_values_length)
    show "\<forall>i<length (qb_blocks b). \<exists>s z.
        quantize_block (block_slice (flat weights) block_size i) = Inr (qb_blocks b ! i, s, z) \<and>
        fa_values (qb_scales b) ! i = scalar_value s \<and>
        fa_values (qb_zero_points b) ! i = scalar_value z"
    proof (intro allI impI)
      fix i assume "i < length (qb_blocks b)"
      then have i: "i < ?num" by (simp only: nb)
      from blk i have q: "quantize_block (block_slice (flat weights) block_size i) = Inr (r ! i)"
        by blast
      obtain c s z where c: "r ! i = (c, s, z)" by (cases "r ! i") auto
      have "qb_blocks b ! i = c" using i c by (simp add: b_def len)
      moreover have "fa_values (qb_scales b) ! i = scalar_value s"
        using i c by (simp add: b_def len np_array_values_nth)
      moreover have "fa_values (qb_zero_points b) ! i = scalar_value z"
        using i c by (simp add: b_def len np_array_values_nth)
      ultimately show "\<exists>s z.
        quantize_block (block_slice (flat weights) block_size i) = Inr (qb_blocks b ! i, s, z) \<and>
        fa_values (qb_scales b) ! i = scalar_value s \<and>
        fa_values (qb_zero_points b) ! i = scalar_value z"
        using q c by simp
    qed
  qed
qed

theorem quantize_block_wise_partition_witness:
  "(0::nat) < 128 \<and> 128 \<le> nd_size \<lparr>shape = [300], flat = replicate 300 (0::rat)\<rparr> \<and>
   (\<exists>b. quantize_block_wise \<lparr>shape = [300], flat = replicate 300 0\<rparr> 128 = Inr (Blocks b) \<and>
        map length (qb_blocks b) = [128, 128, 44])"
proof -
  let ?w = "\<lparr>shape = [300], flat = replicate 300 (0::rat)\<rparr>"
  have h1: "(0::nat) < 128" by simp
  have h2: "128 \<le> nd_size ?w" by (simp add: nd_size_def)
  from quantize_block_wise_partition [OF h1 h2] obtain b where
    b: "quantize_block_wise ?w 128 = Inr (Blocks b)"
       "length (qb_blocks b) = (nd_size ?w + 128 - 1) div 128"
       "map length (qb_blocks b) =
          map (\<lambda>i. min 128 (nd_size ?w - i * 128)) [0 ..< length (qb_blocks b)]"
    by blast
  have n: "length (qb_blocks b) = 3" using b(2) by (simp add: nd_size_def)
  have "[0 ..< 3] = [0, 1, 2]" by (simp add: upt_rec)
  then have m: "map length (qb_blocks b) = [128, 128, 44]"
    using b(3) by (simp add: n nd_size_def)
  show ?thesis by (intro conjI exI [of _ b]) (rule h1 h2 b(1) m)+
qed

text \<open>
  Claim C6 as stated fails below \<open>block_size\<close>: three elements with the default block
  size of 128 are not split into one short block but quantized as a whole tensor.
\<close>

theorem quantize_block_wise_partition_counterexample:
  "quantize_block_wise \<lparr>shape = [3], flat = [0, 1, 2]\<rparr> 128 =
     Inr (WholeTensor
            \<lparr>q8_weights = \<lparr>shape = [3], flat = [- 127, 0, 127]\<rparr>,
             q8_scale = Fin (2113665 / 268435456), q8_zero_point = Fin (- 127),
             q8_shape = [3]\<rparr> 8)"
  by code_simp



section \<open>Properties of the size accounting\<close>

lemma quantize_int8_Inr:
  assumes "flat weights \<noteq> []"
  shows "\<exists>q. quantize_int8 weights = Inr q \<and> shape (q8_weights q) = shape weights \<and>
             nd_size (q8_weights q) = nd_size weights \<and> q8_shape q = shape weights"
  using assms by (simp add: quantize_int8_def Let_def nd_map_def nd_size_def)

lemma quantize_int4_Inr:
  assumes "flat weights \<noteq> []"
  shows "\<exists>q. quantize_int4 weights = Inr q \<and>
             length (q4_packed_weights q) = (nd_size weights + 1) div 2"
  using assms
  by (simp add: quantize_int4_def Let_def nd_size_def pack_int4_length int4_codes_length)

text \<open>
  Claim C7, as amended. For a float32 tensor of rank at least 2 with \<open>N\<close> elements
  (\<open>N\<close> at least 1), \<open>advanced_quantization\<close> stores \<open>N\<close> bytes of int8 codes and
  accounts \<open>N + 16\<close> bytes under \<open>int8\<close>, and stores \<open>(N + 1) div 2\<close> packed bytes and
  accounts \<open>(N + 1) div 2 + 16\<close> bytes under \<open>int4\<close>; \<open>quantize_weights_to_int8\<close>
  stores the same \<open>N\<close> bytes of codes and accounts \<open>N + 8\<close>.
\<close>

theorem quantized_size_accounting:
  assumes "p_dtype p = torch_float32" "2 \<le> length (shape (p_array p))" "0 < numel p"
  shows "(\<exists>q. advanced_tensor method_int8 p = Inr (AdvInt8 q, 4 * numel p, numel p + 16) \<and>
              nd_size (q8_weights q) = numel p) \<and>
         (\<exists>q. advanced_tensor method_int4 p =
                Inr (AdvInt4 q, 4 * numel p, (numel p + 1) div 2 + 16) \<and>
              length (q4_packed_weights q) = (numel p + 1) div 2) \<and>
         (\<exists>q. quantize_weights_to_int8_tensor p = Inr (AdvInt8 q, 4 * numel p, numel p + 8) \<and>
              nd_size (q8_weights q) = numel p)"
proof -
  have ne: "flat (p_array p) \<noteq> []"
    using assms(3) by (auto simp: numel_def nd_size_def)
  have nb: "nbytes p = 4 * numel p"
    using assms(1) by (simp add: nbytes_def)
  from quantize_int8_Inr [OF ne] obtain q8r where
    q8r: "quantize_int8 (p_array p) = Inr q8r" "nd_size (q8_weights q8r) = numel p"
    by (auto simp: numel_def)
  from quantize_int4_Inr [OF ne] obtain q4r where
    q4r: "quantize_int4 (p_array p) = Inr q4r"
         "length (q4_packed_weights q4r) = (numel p + 1) div 2"
    by (auto simp: numel_def)
  have a: "advanced_tensor method_int8 p = Inr (AdvInt8 q8r, 4 * numel p, numel p + 16)"
    using assms(1,2) by (simp add: advanced_tensor_def Let_def q8r nb)
  have b: "advanced_tensor method_int4 p =
             Inr (AdvInt4 q4r, 4 * numel p, (numel p + 1) div 2 + 16)"
    using assms(1,2) by (simp add: advanced_tensor_def Let_def q4r nb)
  have c: "quantize_weights_to_int8_tensor p = Inr (AdvInt8 q8r, 4 * numel p, numel p + 8)"
    using assms(1,2) by (simp add: quantize_weights_to_int8_tensor_def q8r nb)
  from a b c q8r(2) q4r(2) show ?thesis by blast
qed

theorem quantized_size_accounting_witness:
  "p_dtype \<lparr>p_name = ''w'', p_dtype = torch_float32,
            p_array = \<lparr>shape = [2, 2], flat = [0, 1, 2, 3]\<rparr>\<rparr> = torch_float32 \<and>
   2 \<le> length (shape (p_array \<lparr>p_name = ''w'', p_dtype = torch_float32,
            p_array = \<lparr>shape = [2, 2], flat = [0, 1, 2, 3]\<rparr>\<rparr>)) \<and>
   0 < numel \<lparr>p_name = ''w'', p_dtype = torch_float32,
            p_array = \<lparr>shape = [2, 2], flat = [0, 1, 2, 3]\<rparr>\<rparr> \<and>
   (\<exists>q. advanced_tensor method_int8 \<lparr>p_name = ''w'', p_dtype = torch_float32,
            p_array = \<lparr>shape = [2, 2], flat = [0, 1, 2, 3]\<rparr>\<rparr> = Inr (AdvInt8 q, 16, 20)) \<and>
   (\<exists>q. advanced_tensor method_int4 \<lparr>p_name = ''w'', p_dtype = torch_float32,
            p_array = \<lparr>shape = [2, 2], flat = [0, 1, 2, 3]\<rparr>\<rparr> = Inr (AdvInt4 q, 16, 18))"
proof -
  let ?p = "\<lparr>p_name = ''w'', p_dtype = torch_float32,
            p_array = \<lparr>shape = [2, 2], flat = [0, 1, 2, 3 :: rat]\<rparr>\<rparr>"
  have h1: "p_dtype ?p = torch_float32" by simp
  have h2: "2 \<le> length (shape (p_array ?p))" by simp
  have n: "numel ?p = 4" by (simp add: numel_def nd_size_def)
  have h3: "0 < numel ?p" by (simp add: n)
  from quantized_size_accounting [OF h1 h2 h3]
  have a: "\<exists>q. advanced_tensor method_int8 ?p = Inr (AdvInt8 q, 16, 20)"
   and b: "\<exists>q. advanced_tensor method_int4 ?p = Inr (AdvInt4 q, 16, 18)"
    unfolding n by auto
  show ?thesis by (intro conjI) (rule h1 h2 h3 a b)+
qed

text \<open>
  Claim C7 as stated fails on \<open>quantize_weights_to_int8\<close>: for four elements the
  accounted size is 4 + 8, not 4 + 16.
\<close>

theorem quantized_size_accounting_counterexample:
  "quantize_weights_to_int8_tensor
     \<lparr>p_name = ''w'', p_dtype = torch_float32,
      p_array = \<lparr>shape = [2, 2], flat = [0, 1, 2, 3]\<rparr>\<rparr> =
   Inr (AdvInt8 \<lparr>q8_weights = \<lparr>shape = [2, 2], flat = [- 127, - 42, 42, 127]\<rparr>,
                 q8_scale = Fin (6340995 / 536870912), q8_zero_point = Fin (- 127),
                 q8_shape = [2, 2]\<rparr>,
        16, 12)"
  by code_simp

section \<open>Properties of the scheme selection\<close>

lemma mixed_precision_scheme_float32:
  "mixed_precision_scheme torch_float32 shp =
     select_spec (\<lambda>name. False) Int8Linear name shp (prod_list shp)"
  by (simp add: mixed_precision_scheme_def select_spec_def Let_def)

lemma advanced_tensor_scheme:
  assumes "p_dtype p = torch_float32" "2 \<le> length (shape (p_array p))" "1000 < numel p"
  shows "\<exists>d a b. advanced_tensor m p = Inr (d, a, b) \<and>
           scheme_of d =
             (case m of
                method_int8 \<Rightarrow> Int8Linear
              | method_int4 \<Rightarrow> Int4Packed
              | method_mixed \<Rightarrow> (if is_critical (p_name p) then Int8Linear else Int4Packed)
              | method_block \<Rightarrow> BlockInt8 128)"
proof -
  have ne: "flat (p_array p) \<noteq> []"
    using assms(3) by (auto simp: numel_def nd_size_def)
  from quantize_int8_Inr [OF ne] obtain q8r where
    q8r: "quantize_int8 (p_array p) = Inr q8r" by auto
  from quantize_int4_Inr [OF ne] obtain q4r where
    q4r: "quantize_int4 (p_array p) = Inr q4r" by auto
  have big: "128 \<le> nd_size (p_array p)" using assms(3) by (simp add: numel_def)
  have pos: "(0::nat) < 128" by simp
  from quantize_block_wise_blocks [OF pos big] obtain qb where
    qb: "quantize_block_wise (p_array p) 128 = Inr (Blocks qb)" "qb_block_size qb = 128"
    by fastforce
  show ?thesis
  proof (cases m)
    case method_int8
    then show ?thesis using assms(1,2) by (simp add: advanced_tensor_def Let_def q8r)
  next
    case method_int4
    then show ?thesis using assms(1,2) by (simp add: advanced_tensor_def Let_def q4r)
  next
    case method_mixed
    then show ?thesis
      using assms(1,2)
      by (simp add: advanced_tensor_def Let_def quantize_mixed_precision_def q8r q4r)
  next
    case method_block
    then show ?thesis using assms(1,2) by (simp add: advanced_tensor_def Let_def qb)
  qed
qed

text \<open>
  Claim C5, as amended. In \<open>mixed_precision_quantization\<close> the scheme of a float32
  tensor is a function of its shape alone, namely the ordered policy without the rule for
  critical names and without another mode: at most one element gives Passthrough, rank
  below 2 gives Float16, more than 1000 elements with rank at least 2 give Int8Linear,
  anything else Float16. In \<open>advanced_quantization\<close> a float32 tensor of rank at least
  2 with more than 1000 elements is encoded in the scheme of the requested method:
  Int8Linear, Int4Packed, BlockInt8(128), or under \<open>mixed\<close> Int8Linear for a name that
  contains a critical layer name and Int4Packed otherwise. Both are functions of their
  arguments, so a second run selects the same schemes.
\<close>

theorem scheme_selection_policy:
  "mixed_precision_scheme torch_float32 shp =
     select_spec (\<lambda>name. False) Int8Linear name shp (prod_list shp) \<and>
   (p_dtype p = torch_float32 \<longrightarrow> 2 \<le> length (shape (p_array p)) \<longrightarrow> 1000 < numel p \<longrightarrow>
      (\<exists>d a b. advanced_tensor m p = Inr (d, a, b) \<and>
         scheme_of d =
           (case m of
              method_int8 \<Rightarrow> Int8Linear
            | method_int4 \<Rightarrow> Int4Packed
            | method_mixed \<Rightarrow> (if is_critical (p_name p) then Int8Linear else Int4Packed)
            | method_block \<Rightarrow> BlockInt8 128)))"
  using mixed_precision_scheme_float32 advanced_tensor_scheme by blast

theorem scheme_selection_policy_witness:
  "p_dtype \<lparr>p_name = ''encoder.conv1.weight'', p_dtype = torch_float32,
            p_array = \<lparr>shape = [1001, 1], flat = replicate 1001 0\<rparr>\<rparr> = torch_float32 \<and>
   2 \<le> length (shape (p_array \<lparr>p_name = ''encoder.conv1.weight'', p_dtype = torch_float32,
            p_array = \<lparr>shape = [1001, 1], flat = replicate 1001 0\<rparr>\<rparr>)) \<and>
   1000 < numel \<lparr>p_name = ''encoder.conv1.weight'', p_dtype = torch_float32,
            p_array = \<lparr>shape = [1001, 1], flat = replicate 1001 0\<rparr>\<rparr> \<and>
   mixed_precision_scheme torch_float32 [1001, 1] = Int8Linear \<and>
   (\<exists>d a b. advanced_tensor method_mixed
               \<lparr>p_name = ''encoder.conv1.weight'', p_dtype = torch_float32,
                p_array = \<lparr>shape = [1001, 1], flat = replicate 1001 0\<rparr>\<rparr> = Inr (d, a, b) \<and>
            scheme_of d = Int8Linear)"
proof -
  let ?p = "\<lparr>p_name = ''encoder.conv1.weight'', p_dtype = torch_float32,
            p_array = \<lparr>shape = [1001, 1], flat = replicate 1001 (0::rat)\<rparr>\<rparr>"
  have h1: "p_dtype ?p = torch_float32" by simp
  have h2: "2 \<le> length (shape (p_array ?p))" by simp
  have h3: "1000 < numel ?p" by (simp add: numel_def nd_size_def)
  have c: "is_critical (p_name ?p)" by code_simp
  note t = scheme_selection_policy [of "[1001, 1]" "''encoder.conv1.weight''" ?p method_mixed]
  have a: "mixed_precision_scheme torch_float32 [1001, 1] = Int8Linear"
    using t [THEN conjunct1] by (simp add: select_spec_def)
  have b: "\<exists>d a b. advanced_tensor method_mixed ?p = Inr (d, a, b) \<and> scheme_of d = Int8Linear"
    using t [THEN conjunct2, rule_format, OF h1 h2 h3] c by simp
  show ?thesis by (intro conjI) (rule h1 h2 h3 a b)+
qed

text \<open>
  Claim C5 as stated fails on \<open>mixed_precision_quantization\<close>: a 10 by 10 tensor with
  a critical name is Int8Linear under the stated policy and Float16 in the code, which
  never looks at the name.
\<close>

theorem scheme_selection_counterexample:
  "select_spec is_critical Int8Linear ''encoder.conv1.weight'' [10, 10] 100 = Int8Linear \<and>
   mixed_precision_scheme torch_float32 [10, 10] = Float16"
  by code_simp

section \<open>Properties of decoding\<close>









text \<open>
  On the item that the int8 branch stores, decoding is \<open>dequantize_int8\<close> on the
  stored codes, scale and zero point.
\<close>

lemma dequantize_int8_item:
  assumes "shape (q8_weights q) \<noteq> []"
  shows "dequantize_item (int8_item q) =
     Inr (FloatArray (dequantize_int8 (q8_weights q) (round32 (q8_scale q))
                        (round32 (q8_zero_point q))))"
  using assms
  by (simp add: dequantize_item_def int8_item_def dequantize_int8_def nd_map_def Let_def comp_def)




section \<open>Properties of the reported sizes\<close>

lemma total_original_float32:
  assumes "\<forall>p\<in>set model. p_dtype p = torch_float32"
  shows "sum_list (map (\<lambda>p. numel p * element_size (p_dtype p)) model) =
         sum_list (map (\<lambda>p. numel p * 4) model)"
  using assms by (induction model) auto

text \<open>
  \<open>advanced_quantization\<close> keeps the catalog's names in order, counts
  \<open>nbytes\<close> of every tensor as original size and divides it by the sum of the sizes
  accounted in memory; no written file enters its ratio.
\<close>

lemma advanced_loop_total_original:
  "advanced_loop m ps (st, a, b) = Inr (st', a', b') \<Longrightarrow>
   a' = a + sum_list (map nbytes ps) \<and> map fst st' = map fst st @ map p_name ps"
proof (induction ps arbitrary: st a b)
  case Nil
  then show ?case by simp
next
  case (Cons p ps)
  from Cons.prems obtain d o1 q1 where
    t: "advanced_tensor m p = Inr (d, o1, q1)"
    by (auto split: sum.splits)
  have o: "o1 = nbytes p"
    using t by (auto simp: advanced_tensor_def Let_def split: if_splits quant_method.splits
        sum.splits prod.splits quantized.splits block_result.splits)
  from Cons.prems t have
    "advanced_loop m ps (st @ [(p_name p, d)], a + o1, b + q1) = Inr (st', a', b')"
    by simp
  from Cons.IH [OF this] show ?case by (simp add: o)
qed

lemma advanced_quantization_totals:
  assumes "advanced_quantization model m = Inr r"
  shows "adv_total_original_size r = sum_list (map nbytes model) \<and>
         map fst (adv_state r) = map p_name model \<and>
         adv_overall_compression r =
           of_nat (adv_total_original_size r) / of_nat (adv_total_quantized_size r)"
proof -
  from assms obtain st a b where
    l: "advanced_loop m model ([], 0, 0) = Inr (st, a, b)" and
    r: "r = \<lparr>adv_state = st, adv_total_original_size = a, adv_total_quantized_size = b,
              adv_overall_compression = of_nat a / of_nat b\<rparr>"
    by (auto simp: advanced_quantization_def split: sum.splits if_splits)
  from advanced_loop_total_original [OF l] show ?thesis by (simp add: r)
qed

text \<open>
  Claim C9, as amended. When the written archive has at least one byte and the tensors
  hold at least one byte, \<open>quantize_and_save_real\<close> puts the archive at
  \<open>archive_path\<close>, replacing whatever was there, takes as archive size the size that
  the file system then reports for that file, which is the number of bytes written, and
  reports the ratio \<open>total_original / archive_size\<close> and the saving
  \<open>total_original - archive_size\<close> (printed in MB); \<open>total_original\<close> is the
  sum over the tensors of the element count times the size of one element, which is
  the element count times 4 when every tensor is float32. On a catalog without tensor
  data it raises ZeroDivisionError instead of reporting.
\<close>

theorem quantize_and_save_real_report:
  "(archive \<noteq> [] \<longrightarrow>
    0 < sum_list (map (\<lambda>p. numel p * element_size (p_dtype p)) model) \<longrightarrow>
    (\<exists>r fs'. quantize_and_save_real model archive fs = Inr (r, fs') \<and>
       fs' archive_path = Some archive \<and>
       stat_size fs' archive_path = Inr (rr_archive_size r) \<and>
       rr_archive_size r = length archive \<and>
       rr_total_original_size r =
         sum_list (map (\<lambda>p. numel p * element_size (p_dtype p)) model) \<and>
       rr_real_compression r = of_nat (rr_total_original_size r) / of_nat (length archive) \<and>
       rr_savings_mb r * (1024 * 1024) =
         of_nat (rr_total_original_size r) - of_nat (length archive) \<and>
       ((\<forall>p\<in>set model. p_dtype p = torch_float32) \<longrightarrow>
          rr_total_original_size r = sum_list (map (\<lambda>p. numel p * 4) model)))) \<and>
   (sum_list (map (\<lambda>p. numel p * element_size (p_dtype p)) model0) = 0 \<longrightarrow>
      quantize_and_save_real model0 archive0 fs0 = Inl ZeroDivisionError)"
proof (intro conjI impI)
  let ?t = "sum_list (map (\<lambda>p. numel p * element_size (p_dtype p)) model)"
  assume a: "archive \<noteq> []" and pos: "0 < ?t"
  define fs' where "fs' = fs(archive_path \<mapsto> archive)"
  define r where
    "r = \<lparr>rr_total_original_size = ?t,
          rr_total_compressed_size = sum_list (map param_file_size model),
          rr_archive_size = length archive,
          rr_real_compression = of_nat ?t / of_nat (length archive),
          rr_savings_mb = (of_nat ?t - of_nat (length archive)) / (1024 * 1024),
          rr_savings_percent = (1 - of_nat (length archive) / of_nat ?t) * 100\<rparr>"
  have st: "stat_size fs' archive_path = Inr (length archive)"
    by (simp add: stat_size_def fs'_def)
  have la: "length archive \<noteq> 0" using a by simp
  have ne: "\<not> (length archive = 0 \<or> ?t = 0)" using la pos by linarith
  have res: "quantize_and_save_real model archive fs = Inr (r, fs')"
    unfolding quantize_and_save_real_def Let_def
    by (simp only: st [unfolded fs'_def] sum.case ne if_False r_def fs'_def)
  have t: "rr_total_original_size r = ?t" by (simp add: r_def)
  show "\<exists>r fs'. quantize_and_save_real model archive fs = Inr (r, fs') \<and>
       fs' archive_path = Some archive \<and>
       stat_size fs' archive_path = Inr (rr_archive_size r) \<and>
       rr_archive_size r = length archive \<and>
       rr_total_original_size r = ?t \<and>
       rr_real_compression r = of_nat (rr_total_original_size r) / of_nat (length archive) \<and>
       rr_savings_mb r * (1024 * 1024) =
         of_nat (rr_total_original_size r) - of_nat (length archive) \<and>
       ((\<forall>p\<in>set model. p_dtype p = torch_float32) \<longrightarrow>
          rr_total_original_size r = sum_list (map (\<lambda>p. numel p * 4) model))"
  proof (intro exI [of _ r] exI [of _ fs'] conjI)
    show "quantize_and_save_real model archive fs = Inr (r, fs')" by (rule res)
    show "fs' archive_path = Some archive" by (simp add: fs'_def)
    show "stat_size fs' archive_path = Inr (rr_archive_size r)" by (simp add: st r_def)
    show "rr_archive_size r = length archive" by (simp add: r_def)
    show "rr_total_original_size r = ?t" by (rule t)
    show "rr_real_compression r = of_nat (rr_total_original_size r) / of_nat (length archive)"
      by (simp add: r_def)
    show "rr_savings_mb r * (1024 * 1024) =
          of_nat (rr_total_original_size r) - of_nat (length archive)"
      by (simp add: r_def)
    show "(\<forall>p\<in>set model. p_dtype p = torch_float32) \<longrightarrow>
        rr_total_original_size r = sum_list (map (\<lambda>p. numel p * 4) model)"
      using total_original_float32 [of model] by (simp only: t) blast
  qed
next
  assume z: "sum_list (map (\<lambda>p. numel p * element_size (p_dtype p)) model0) = 0"
  show "quantize_and_save_real model0 archive0 fs0 = Inl ZeroDivisionError"
    unfolding quantize_and_save_real_def Let_def
    by (simp add: stat_size_def z)
qed

theorem quantize_and_save_real_report_witness:
  "[31, 139, 8, 0 :: 8 word] \<noteq> [] \<and>
   0 < sum_list (map (\<lambda>p. numel p * element_size (p_dtype p))
          [\<lparr>p_name = ''w'', p_dtype = torch_float32,
            p_array = \<lparr>shape = [2, 2], flat = [0, 1, 2, 3]\<rparr>\<rparr>]) \<and>
   p_dtype \<lparr>p_name = ''w'', p_dtype = torch_float32,
            p_array = \<lparr>shape = [2, 2], flat = [0, 1, 2, 3]\<rparr>\<rparr> = torch_float32 \<and>
   (\<exists>r fs'. quantize_and_save_real
          [\<lparr>p_name = ''w'', p_dtype = torch_float32,
            p_array = \<lparr>shape = [2, 2], flat = [0, 1, 2, 3]\<rparr>\<rparr>] [31, 139, 8, 0]
          (Map.empty(archive_path \<mapsto> [1, 2, 3, 4, 5, 6, 7])) = Inr (r, fs') \<and>
        fs' archive_path = Some [31, 139, 8, 0] \<and>
        rr_archive_size r = 4 \<and>
        rr_total_original_size r = 16 \<and> rr_real_compression r = 4 \<and>
        rr_savings_mb r * (1024 * 1024) = 12 \<and>
        rr_total_original_size r =
          sum_list (map (\<lambda>p. numel p * 4)
            [\<lparr>p_name = ''w'', p_dtype = torch_float32,
              p_array = \<lparr>shape = [2, 2], flat = [0, 1, 2, 3]\<rparr>\<rparr>])) \<and>
   sum_list (map (\<lambda>p. numel p * element_size (p_dtype p)) []) = 0 \<and>
   quantize_and_save_real [] [31, 139, 8, 0] Map.empty = Inl ZeroDivisionError"
proof -
  let ?p = "\<lparr>p_name = ''w'', p_dtype = torch_float32,
            p_array = \<lparr>shape = [2, 2], flat = [0, 1, 2, 3 :: rat]\<rparr>\<rparr>"
  let ?m = "[?p]"
  let ?a = "[31, 139, 8, 0 :: 8 word]"
  let ?fs = "Map.empty(archive_path \<mapsto> [1, 2, 3, 4, 5, 6, 7 :: 8 word])"
  note t = quantize_and_save_real_report [of ?a ?m ?fs "[]" ?a Map.empty]
  have h1: "?a \<noteq> []" by simp
  have s: "sum_list (map (\<lambda>p. numel p * element_size (p_dtype p)) ?m) = 16"
    by (simp add: numel_def nd_size_def)
  have h2: "0 < sum_list (map (\<lambda>p. numel p * element_size (p_dtype p)) ?m)"
    by (simp add: numel_def nd_size_def)
  have f: "p_dtype ?p = torch_float32" by simp
  have h3: "\<forall>p\<in>set ?m. p_dtype p = torch_float32" by simp
  have h4: "sum_list (map (\<lambda>p. numel p * element_size (p_dtype p)) []) = 0" by simp
  from t [THEN conjunct1, THEN mp, OF h1, THEN mp, OF h2] obtain r fs' where
    rr: "quantize_and_save_real ?m ?a ?fs = Inr (r, fs') \<and>
       fs' archive_path = Some ?a \<and>
       stat_size fs' archive_path = Inr (rr_archive_size r) \<and>
       rr_archive_size r = length ?a \<and>
       rr_total_original_size r = sum_list (map (\<lambda>p. numel p * element_size (p_dtype p)) ?m) \<and>
       rr_real_compression r = of_nat (rr_total_original_size r) / of_nat (length ?a) \<and>
       rr_savings_mb r * (1024 * 1024) = of_nat (rr_total_original_size r) - of_nat (length ?a) \<and>
       ((\<forall>p\<in>set ?m. p_dtype p = torch_float32) \<longrightarrow>
          rr_total_original_size r = sum_list (map (\<lambda>p. numel p * 4) ?m))"
    by (elim exE)
  note c1 = rr [THEN conjunct1]
  note c2 = rr [THEN conjunct2, THEN conjunct1]
  note c4 = rr [THEN conjunct2, THEN conjunct2, THEN conjunct2, THEN conjunct1]
  note c5 = rr [THEN conjunct2, THEN conjunct2, THEN conjunct2, THEN conjunct2, THEN conjunct1]
  note c6 = rr [THEN conjunct2, THEN conjunct2, THEN conjunct2, THEN conjunct2, THEN conjunct2,
      THEN conjunct1]
  note c7 = rr [THEN conjunct2, THEN conjunct2, THEN conjunct2, THEN conjunct2, THEN conjunct2,
      THEN conjunct2, THEN conjunct1]
  note c8 = rr [THEN conjunct2, THEN conjunct2, THEN conjunct2, THEN conjunct2, THEN conjunct2,
      THEN conjunct2, THEN conjunct2]
  have a: "rr_archive_size r = 4" using c4 by simp
  have b: "rr_total_original_size r = 16" using c5 by (simp only: s)
  have c: "rr_real_compression r = 4" using c6 by (simp add: b)
  have d: "rr_savings_mb r * (1024 * 1024) = 12" using c7 by (simp add: b)
  have e: "rr_total_original_size r = sum_list (map (\<lambda>p. numel p * 4) ?m)"
    by (rule c8 [THEN mp, OF h3])
  have ex: "\<exists>r fs'. quantize_and_save_real ?m ?a ?fs = Inr (r, fs') \<and>
        fs' archive_path = Some ?a \<and>
        rr_archive_size r = 4 \<and>
        rr_total_original_size r = 16 \<and> rr_real_compression r = 4 \<and>
        rr_savings_mb r * (1024 * 1024) = 12 \<and>
        rr_total_original_size r = sum_list (map (\<lambda>p. numel p * 4) ?m)"
    by (intro exI [of _ r] exI [of _ fs'] conjI) (rule c1 c2 a b c d e)+
  have z: "quantize_and_save_real [] ?a Map.empty = Inl ZeroDivisionError"
    by (rule t [THEN conjunct2, THEN mp, OF h4])
  show ?thesis by (intro conjI) (rule h1 h2 f ex h4 z)+
qed

text \<open>
  Claim C9 as stated fails. A catalog without tensors makes
  \<open>quantize_and_save_real\<close> raise ZeroDivisionError, so no ratio is computed for it.
  And for a saved file of 2048 bytes the closing summary of
  \<open>compare_quantization_methods\<close> reports the ratio 1457 MB / size whichever tensors
  were encoded, where \<open>quantize_and_save_real\<close> on a 2 by 2 float32 tensor and an
  archive of 2048 bytes reports 16 / 2048.
\<close>

theorem quantize_and_save_real_report_counterexample:
  "quantize_and_save_real [] [31, 139, 8, 0] Map.empty = Inl ZeroDivisionError \<and>
   map_sum id fst
     (quantize_and_save_real
        [\<lparr>p_name = ''w'', p_dtype = torch_float32,
          p_array = \<lparr>shape = [2, 2], flat = [0, 1, 2, 3]\<rparr>\<rparr>] (replicate 2048 0) Map.empty) =
     Inr \<lparr>rr_total_original_size = 16, rr_total_compressed_size = 21,
          rr_archive_size = 2048, rr_real_compression = 1 / 128,
          rr_savings_mb = - (127 / 65536), rr_savings_percent = - 12700\<rparr> \<and>
   compare_summary (file_size_mb 2048) = (745984, 745983 / 512)"
  by (simp add: quantize_and_save_real_def stat_size_def Let_def param_file_size_def numel_def
      nd_size_def nbytes_def compare_summary_def file_size_mb_def)

section \<open>Int8 quantization on constant tensors and near \<open>w_max\<close>\<close>

text \<open>
  On every constant tensor \<open>quantize_int8\<close> divides by a scale of 0: the zero point
  is not finite and every decoded value is NaN.
\<close>

lemma float32_0: "float32 0 = Fin 0"
  by (simp add: float32_def)

lemma quantize_int8_constant:
  assumes "flat w \<noteq> []" "set (flat w) = {c}"
  shows "quantize_int8 w =
           Inr \<lparr>q8_weights = \<lparr>shape = shape w, flat = replicate (length (flat w)) 0\<rparr>,
                q8_scale = Fin 0,
                q8_zero_point = (if c = 0 then NaN else if 0 < c then NegInf else PosInf),
                q8_shape = shape w\<rparr>"
    and "roundtrip_int8 w = Inr \<lparr>shape = shape w, flat = replicate (length (flat w)) NaN\<rparr>"
proof -
  define z where "z = (if c = 0 then NaN else if 0 < c then NegInf else PosInf)"
  have mn: "Min (set (flat w)) = c" and mx: "Max (set (flat w)) = c"
    by (simp_all add: assms(2))
  have s: "div32 (sub32 (Fin c) (Fin c)) (Fin 254) = Fin 0"
    by (simp add: div32_def sub32_def fsub_def float32_0)
  have zp: "sub32 (Fin (- 127)) (div32 (Fin c) (Fin 0)) = z"
    by (simp add: div32_def sub32_def fsub_def signed_inf_def z_def)
  have e: "astype_int8 (np_round (add32 (div32 (Fin c) (Fin 0)) z)) = 0"
    by (simp add: div32_def add32_def signed_inf_def z_def)
  have all: "\<forall>x\<in>set (flat w). x = c" using assms(2) by simp
  have m: "map (\<lambda>x. astype_int8 (np_round (add32 (div32 (Fin x) (Fin 0)) z))) (flat w) =
           map (\<lambda>x. 0) (flat w)"
  proof (rule map_cong [OF refl])
    fix x assume "x \<in> set (flat w)"
    then have "x = c" using all by blast
    then show "astype_int8 (np_round (add32 (div32 (Fin x) (Fin 0)) z)) = 0"
      by (simp only: e)
  qed
  have q: "quantize_int8 w =
           Inr \<lparr>q8_weights = \<lparr>shape = shape w, flat = replicate (length (flat w)) 0\<rparr>,
                q8_scale = Fin 0, q8_zero_point = z, q8_shape = shape w\<rparr>"
    unfolding quantize_int8_def Let_def mn mx s zp nd_map_def m
    using assms(1) by (simp add: map_replicate_const)
  then show "quantize_int8 w =
           Inr \<lparr>q8_weights = \<lparr>shape = shape w, flat = replicate (length (flat w)) 0\<rparr>,
                q8_scale = Fin 0,
                q8_zero_point = (if c = 0 then NaN else if 0 < c then NegInf else PosInf),
                q8_shape = shape w\<rparr>"
    by (simp only: z_def)
  have d: "mul32 (sub32 (int8_to_float 0) z) (Fin 0) = NaN"
    by (simp add: mul32_def sub32_def fsub_def int8_to_float_def float32_0 z_def)
  show "roundtrip_int8 w = Inr \<lparr>shape = shape w, flat = replicate (length (flat w)) NaN\<rparr>"
    by (simp add: roundtrip_int8_def q dequantize_int8_def nd_map_def d)
qed

text \<open>
  Claim C1 fails on the code. On the constant tensor \<open>[0.5, 0.5]\<close> the scale is 0, the
  zero point is minus infinity and both decoded values are NaN, which are not within
  any step of 0.5.
\<close>

theorem roundtrip_int8_constant_tensor:
  "quantize_int8 \<lparr>shape = [2], flat = [1 / 2, 1 / 2]\<rparr> =
     Inr \<lparr>q8_weights = \<lparr>shape = [2], flat = [0, 0]\<rparr>, q8_scale = Fin 0,
          q8_zero_point = NegInf, q8_shape = [2]\<rparr> \<and>
   roundtrip_int8 \<lparr>shape = [2], flat = [1 / 2, 1 / 2]\<rparr> =
     Inr \<lparr>shape = [2], flat = [NaN, NaN]\<rparr>"
  by code_simp

text \<open>
  Claim C2 fails on the code. On \<open>[1048576.0, 1048577.0]\<close> the rounded value of
  \<open>w_max\<close> is 128; no clamp follows, the cast stores it as -128, the code of \<open>w_min\<close>,
  and both elements decode to 1048576. On the guarded path of the block loop the
  constant block \<open>[100.0, 100.0]\<close> gets the rounded value 200, stored as -56.
\<close>

theorem quantize_int8_wraps:
  "np_round (add32 (div32 (Fin 1048577) (Fin (2113665 / 536870912))) (Fin (- 266338432))) =
     Fin 128 \<and>
   sint (astype_int8 (Fin 128)) = - 128 \<and>
   quantize_int8 \<lparr>shape = [2], flat = [1048576, 1048577]\<rparr> =
     Inr \<lparr>q8_weights = \<lparr>shape = [2], flat = [- 128, - 128]\<rparr>,
          q8_scale = Fin (2113665 / 536870912), q8_zero_point = Fin (- 266338432),
          q8_shape = [2]\<rparr> \<and>
   roundtrip_int8 \<lparr>shape = [2], flat = [1048576, 1048577]\<rparr> =
     Inr \<lparr>shape = [2], flat = [Fin 1048576, Fin 1048576]\<rparr> \<and>
   quantize_block [100, 100] = Inr ([- 56, - 56], PyFloat (Fin 1), Float32 (Fin 100))"
  by code_simp

text \<open>
  Claim C3 fails on the code. On 100 zeros \<open>quantize_int8\<close> takes no guarded path:
  the scale is 0 and not 1.0, the zero point is the NaN of 0 / 0, and every decoded
  value is NaN instead of 0.
\<close>

theorem quantize_int8_all_zeros:
  "quantize_int8 \<lparr>shape = [100], flat = replicate 100 0\<rparr> =
     Inr \<lparr>q8_weights = \<lparr>shape = [100], flat = replicate 100 0\<rparr>, q8_scale = Fin 0,
          q8_zero_point = NaN, q8_shape = [100]\<rparr> \<and>
   roundtrip_int8 \<lparr>shape = [100], flat = replicate 100 0\<rparr> =
     Inr \<lparr>shape = [100], flat = replicate 100 NaN\<rparr>"
  by code_simp

end
